theory Spec2Isabelle
  imports Complex_Main "HOL-Library.Sublist"
begin

section \<open>Strings and numbers as Python has them\<close>

text \<open>
  A Python \<open>str\<close> is modelled as a \<open>string\<close>, one \<open>char\<close> per code point, for the
  code points below 256 (ASCII and Latin-1), which is where URLs and the marker
  literals of the scripts live. A Python \<open>float\<close> that is finite is a rational number,
  so a confidence is a \<open>rat\<close>; the literal \<open>0.4\<close> is the double nearest to 2/5, and no
  double lies between the two, so for a confidence that is a double the test
  \<open>confidence < 0.4\<close> and the test against 2/5 agree.
\<close>

text \<open>\<open>str.lower()\<close> on code points below 256: A-Z and the Latin-1 capitals
  (0xC0-0xDE without the multiplication sign 0xD7) move up by 32.\<close>

definition lower_char :: "char \<Rightarrow> char" where
  "lower_char c =
     (let n = (of_char c :: nat)
      in if (65 \<le> n \<and> n \<le> 90) \<or> (192 \<le> n \<and> n \<le> 222 \<and> n \<noteq> 215)
         then char_of (n + 32) else c)"

definition lower :: "string \<Rightarrow> string" where
  "lower s = map lower_char s"

text \<open>\<open>p in s\<close> on two strings: \<open>p\<close> occurs in \<open>s\<close> as a contiguous run.\<close>

fun str_in :: "string \<Rightarrow> string \<Rightarrow> bool" where
  "str_in p [] = (p = [])"
| "str_in p (c # cs) = (prefix p (c # cs) \<or> str_in p cs)"

text \<open>\<open>str(n)\<close> of a non-negative integer: its decimal digits.\<close>

definition digit_char :: "nat \<Rightarrow> char" where
  "digit_char d = ''0123456789'' ! (d mod 10)"

fun str_nat :: "nat \<Rightarrow> string" where
  "str_nat n = (if n < 10 then [digit_char n] else str_nat (n div 10) @ [digit_char (n mod 10)])"

declare str_nat.simps [simp del]

text \<open>The format \<open>:.2f\<close> of a finite float: two decimals, the tie rounded to even.\<close>

definition round_half_even :: "rat \<Rightarrow> int" where
  "round_half_even q =
     (let f = \<lfloor>q\<rfloor>; r = q - of_int f
      in if r < 1 / 2 then f
         else if 1 / 2 < r then f + 1
         else if even f then f else f + 1)"

definition format_2f :: "rat \<Rightarrow> string" where
  "format_2f q =
     (let n = nat (round_half_even (\<bar>q\<bar> * 100))
      in (if q < 0 then ''-'' else '''') @ str_nat (n div 100) @ ''.''
           @ [digit_char (n mod 100 div 10), digit_char (n mod 10)])"

text \<open>\<open>str(x)\<close> inside an f-string for a value that may be \<open>None\<close>.\<close>

definition str_opt :: "string option \<Rightarrow> string" where
  "str_opt v = (case v of None \<Rightarrow> ''None'' | Some s \<Rightarrow> s)"

section \<open>Data model\<close>

text \<open>An exception of class \<open>Exception\<close>; \<open>aiohttp.ClientError\<close> is the one subclass the
  code names. Each carries the text that \<open>str(e)\<close> yields.\<close>

datatype py_exception = ClientError string | OtherException string

fun exc_str :: "py_exception \<Rightarrow> string" where
  "exc_str (ClientError m) = m"
| "exc_str (OtherException m) = m"

text \<open>Inside a \<open>try\<close> block: the next statement runs unless the call before it
  raised.\<close>

fun exc_bind :: "py_exception + 'a \<Rightarrow> ('a \<Rightarrow> py_exception + 'b) \<Rightarrow> py_exception + 'b" where
  "exc_bind (Inl e) f = Inl e"
| "exc_bind (Inr x) f = f x"

text \<open>Modelled from the spec: the enumeration \<open>OpportunityTiming\<close> of \<open>src.db.models\<close>,
  which the scripts import and whose declaration is not among the sources; the spec
  gives it as \<open>enum{ONE_TIME, ANNUAL, RECURRING, SEASONAL}\<close>.\<close>

datatype OpportunityTiming = ONE_TIME | ANNUAL | RECURRING | SEASONAL

text \<open>Modelled from the spec: the opportunity card of \<open>src.db.models\<close>, with the fields
  that the scripts read or write. \<open>ec_type\<close> stands for \<open>ec.ec_type.value\<close>.\<close>

record ECCard =
  title :: string
  organization :: "string option"
  ec_type :: string
  location :: string
  is_expired :: bool
  timing_type :: OpportunityTiming
  recheck_days :: int

text \<open>What \<open>extractor.extract\<close> returns.\<close>

record ExtractionResult =
  ex_success :: bool
  ex_confidence :: "rat option"
  ec_card :: "ECCard option"
  ex_error :: "string option"

text \<open>What \<open>crawler.crawl\<close> returns, and \<open>crawler.crawl_batch\<close> for each URL.\<close>

record CrawlResult =
  cr_url :: string
  cr_success :: bool
  markdown :: "string option"
  cr_error :: "string option"

text \<open>The dictionary under the key \<open>"card"\<close> of a successful result.\<close>

record card =
  card_title :: string
  card_organization :: "string option"
  card_type :: string
  card_location :: string

text \<open>The dictionary that \<open>process_url\<close> and \<open>extract_and_save\<close> return:
  \<open>{"error": message, "url": url}\<close> or \<open>{"success": True, "url": url, "card": card}\<close>.\<close>

datatype url_result = Failed string string | Succeeded string card

fun is_failed :: "url_result \<Rightarrow> bool" where
  "is_failed (Failed m u) = True"
| "is_failed (Succeeded u c) = False"

text \<open>The collaborators of a run. A call either raises (\<open>Inl\<close>, or \<open>Some\<close> for a call
  without a result) or returns.\<close>

record collaborators =
  crawler_crawl :: "string \<Rightarrow> py_exception + CrawlResult"
  extractor_extract :: "string \<Rightarrow> string \<Rightarrow> py_exception + ExtractionResult"
  sync_upsert_opportunity :: "ECCard \<Rightarrow> py_exception option"
  use_embeddings :: bool
  generate_for_indexing :: "ECCard \<Rightarrow> py_exception option"

text \<open>What a run has done to its collaborators so far: the calls of the extraction
  agent, the records handed to \<open>sync.upsert_opportunity\<close>, and the records handed to
  \<open>vector_db.add_ec_with_embedding\<close> (whose own failure is swallowed).
  \<open>use_embeddings\<close> stands for \<open>embeddings and vector_db and settings.use_embeddings\<close>.\<close>

record world =
  extract_calls :: "(string \<times> string) list"
  upsert_calls :: "ECCard list"
  index_calls :: "ECCard list"

definition card_of :: "ECCard \<Rightarrow> card" where
  "card_of ec = \<lparr>card_title = title ec, card_organization = organization ec,
                 card_type = ec_type ec, card_location = location ec\<rparr>"

definition confidence_or_zero :: "rat option \<Rightarrow> rat" where
  \<comment> \<open>\<open>extraction.confidence or 0.0\<close>\<close>
  "confidence_or_zero c = (case c of None \<Rightarrow> 0 | Some x \<Rightarrow> x)"

definition markdown_or_empty :: "CrawlResult \<Rightarrow> string" where
  \<comment> \<open>\<open>crawl_result.markdown or ''\<close>\<close>
  "markdown_or_empty cr = (case markdown cr of None \<Rightarrow> '''' | Some s \<Rightarrow> s)"

section \<open>The single-URL path: \<open>process_url\<close>\<close>

text \<open>The part of the \<open>try\<close> block after the extraction agent has returned: the
  acceptance rules in the order of the source, then the upsert. \<open>Inl\<close> is an exception
  on its way to the handler.\<close>

definition process_url_decide ::
  "collaborators \<Rightarrow> world \<Rightarrow> string \<Rightarrow> ExtractionResult \<Rightarrow> (py_exception + url_result) \<times> world" where
  "process_url_decide c w1 url extraction =
     (if \<not> ex_success extraction
      then (Inr (Failed (''Extraction failed: '' @ str_opt (ex_error extraction)) url), w1)
      else (case ec_card extraction of
          None \<Rightarrow> (Inr (Failed ''No card extracted'' url), w1)
        | Some ec \<Rightarrow>
            (let confidence = confidence_or_zero (ex_confidence extraction)
             in if confidence < 2 / 5
                then (Inr (Failed (''Low confidence: '' @ format_2f confidence) url), w1)
                else if title ec = ''Unknown Opportunity''
                        \<or> organization ec \<in> set [Some ''Unknown'', None, Some '''']
                then (Inr (Failed ''Generic extraction'' url), w1)
                else
                  (let title_lower = lower (title ec)
                   in if list_ex (\<lambda>skip. str_in skip title_lower)
                           [''best '', ''top '', ''ranking'', ''list of'', ''94 '', ''100 '']
                      then (Inr (Failed (''Ranking article: '' @ title ec) url), w1)
                      else if is_expired ec \<and> timing_type ec = ONE_TIME
                      then (Inr (Failed ''Expired one-time opportunity (deadline/end date in the past)'' url), w1)
                      else
                        (let ec' = (if is_expired ec \<and> timing_type ec \<in> set [ANNUAL, RECURRING, SEASONAL]
                                    then ec\<lparr>recheck_days := 3\<rparr> else ec);
                             w2 = w1\<lparr>upsert_calls := upsert_calls w1 @ [ec']\<rparr>
                         in (case sync_upsert_opportunity c ec' of
                               Some e \<Rightarrow> (Inl e, w2)
                             | None \<Rightarrow> (Inr (Succeeded url (card_of ec')), w2)))))))"

text \<open>The body of the \<open>try\<close> block.\<close>

definition process_url_try ::
  "collaborators \<Rightarrow> world \<Rightarrow> string \<Rightarrow> (py_exception + url_result) \<times> world" where
  "process_url_try c w url =
     (case crawler_crawl c url of
        Inl e \<Rightarrow> (Inl e, w)
      | Inr crawl_result \<Rightarrow>
          (if \<not> cr_success crawl_result
           then (Inr (Failed (''Crawl failed: '' @ str_opt (cr_error crawl_result)) url), w)
           else
             (let content_len = length (markdown_or_empty crawl_result)
              in if content_len < 100
                 then (Inr (Failed (''Content too short: '' @ str_nat content_len @ '' chars'') url), w)
                 else
                   (let md = markdown_or_empty crawl_result;
                        w1 = w\<lparr>extract_calls := extract_calls w @ [(md, url)]\<rparr>
                    in (case extractor_extract c md url of
                          Inl e \<Rightarrow> (Inl e, w1)
                        | Inr extraction \<Rightarrow> process_url_decide c w1 url extraction)))))"

definition process_url :: "collaborators \<Rightarrow> world \<Rightarrow> string \<Rightarrow> url_result \<times> world" where
  "process_url c w url =
     (case process_url_try c w url of
        (Inl e, w') \<Rightarrow> (Failed (take 100 (exc_str e)) url, w')
      | (Inr r, w') \<Rightarrow> (r, w'))"

section \<open>The batch path: \<open>extract_and_save\<close>\<close>

text \<open>The part of the \<open>try\<close> block after the extraction agent has returned.\<close>

definition extract_and_save_decide ::
  "collaborators \<Rightarrow> world \<Rightarrow> string \<Rightarrow> ExtractionResult \<Rightarrow> (py_exception + url_result) \<times> world" where
  "extract_and_save_decide c w1 url extraction =
     (if \<not> ex_success extraction
      then (Inr (Failed (''Extraction failed: '' @ str_opt (ex_error extraction)) url), w1)
      else (case ec_card extraction of
          None \<Rightarrow> (Inr (Failed ''No card extracted'' url), w1)
        | Some ec \<Rightarrow>
            (let confidence = confidence_or_zero (ex_confidence extraction)
             in if confidence < 2 / 5
                then (Inr (Failed (''Low confidence: '' @ format_2f confidence) url), w1)
                else if title ec = ''Unknown Opportunity''
                        \<or> organization ec \<in> set [Some ''Unknown'', None, Some '''']
                then (Inr (Failed ''Generic extraction'' url), w1)
                else
                  (let title_lower = lower (title ec)
                   in if list_ex (\<lambda>skip. str_in skip title_lower)
                           [''best '', ''top '', ''ranking'', ''list of'']
                      then (Inr (Failed (''Ranking article: '' @ title ec) url), w1)
                      else if is_expired ec \<and> timing_type ec = ONE_TIME
                      then (Inr (Failed ''Expired one-time opportunity (deadline/end date in the past)'' url), w1)
                      else
                        (let ec' = (if is_expired ec \<and> timing_type ec \<in> set [ANNUAL, RECURRING, SEASONAL]
                                    then ec\<lparr>recheck_days := 3\<rparr> else ec);
                             w2 = w1\<lparr>upsert_calls := upsert_calls w1 @ [ec']\<rparr>
                         in (case sync_upsert_opportunity c ec' of
                               Some e \<Rightarrow> (Inl e, w2)
                             | None \<Rightarrow>
                                 (let w3 = (if use_embeddings c \<and> generate_for_indexing c ec' = None
                                            then w2\<lparr>index_calls := index_calls w2 @ [ec']\<rparr> else w2)
                                  in (Inr (Succeeded url (card_of ec')), w3))))))))"

text \<open>The body of the \<open>try\<close> block inside \<open>async with extraction_semaphore\<close>.\<close>

definition extract_and_save_try ::
  "collaborators \<Rightarrow> world \<Rightarrow> CrawlResult \<Rightarrow> (py_exception + url_result) \<times> world" where
  "extract_and_save_try c w crawl_result =
     (let url = cr_url crawl_result;
          md = markdown_or_empty crawl_result;
          w1 = w\<lparr>extract_calls := extract_calls w @ [(md, url)]\<rparr>
      in (case extractor_extract c md url of
            Inl e \<Rightarrow> (Inl e, w1)
          | Inr extraction \<Rightarrow> extract_and_save_decide c w1 url extraction))"

definition extract_and_save :: "collaborators \<Rightarrow> world \<Rightarrow> CrawlResult \<Rightarrow> url_result \<times> world" where
  "extract_and_save c w crawl_result =
     (if \<not> cr_success crawl_result
      then (Failed (''Crawl failed: '' @ str_opt (cr_error crawl_result)) (cr_url crawl_result), w)
      else
        (let content_len = length (markdown_or_empty crawl_result)
         in if content_len < 100
            then (Failed (''Content too short: '' @ str_nat content_len @ '' chars'') (cr_url crawl_result), w)
            else (case extract_and_save_try c w crawl_result of
                    (Inl e, w') \<Rightarrow> (Failed (take 100 (exc_str e)) (cr_url crawl_result), w')
                  | (Inr r, w') \<Rightarrow> (r, w'))))"

section \<open>The search client: \<open>SearXNGClient.search\<close>\<close>

text \<open>A value decoded from JSON by \<open>response.json()\<close>; \<open>JObj\<close> is the decoded \<open>dict\<close>.\<close>

datatype json =
    JNull
  | JBool bool
  | JNum rat
  | JStr string
  | JArr "json list"
  | JObj "(string \<times> json) list"

text \<open>The dataclass \<open>SearchResult\<close>. Python does not enforce the declared field types,
  and \<open>search\<close> stores whatever the payload holds, so each field is a JSON value.\<close>

record SearchResult =
  sr_url :: json
  sr_title :: json
  sr_snippet :: json
  sr_engine :: json
  sr_score :: json

record http_response =
  status :: int
  response_json :: "py_exception + json"

text \<open>The client object together with the two things of its surroundings that \<open>search\<close>
  uses: the HTTP request \<open>session.get(url, params)\<close>, which may raise, and the text that
  an f-string gives for a decoded value that is not a \<open>str\<close>.\<close>

record SearXNGClient =
  base_url :: string
  session_get :: "string \<Rightarrow> (string \<times> string) list \<Rightarrow> py_exception + http_response"
  py_repr :: "json \<Rightarrow> string"

definition DEFAULT_ENGINES :: "string list" where
  "DEFAULT_ENGINES = [''wikipedia'', ''ask'', ''mojeek'', ''yahoo'']"

definition DEFAULT_EXCLUDED_ENGINES :: "string list" where
  "DEFAULT_EXCLUDED_ENGINES = [''duckduckgo'', ''brave'', ''startpage'']"

fun join :: "string \<Rightarrow> string list \<Rightarrow> string" where
  "join sep [] = []"
| "join sep [x] = x"
| "join sep (x # y # ys) = x @ sep @ join sep (y # ys)"

text \<open>\<open>xs[:k]\<close>: a negative \<open>k\<close> counts from the end.\<close>

definition slice_to :: "'a list \<Rightarrow> int \<Rightarrow> 'a list" where
  "slice_to xs k = (if 0 \<le> k then take (nat k) xs else take (nat (int (length xs) + k)) xs)"

text \<open>\<open>d.get(key, default)\<close>: only a \<open>dict\<close> has the method.\<close>

definition dict_get :: "json \<Rightarrow> string \<Rightarrow> json \<Rightarrow> py_exception + json" where
  "dict_get d k dflt =
     (case d of
        JObj kvs \<Rightarrow> Inr (case map_of kvs k of None \<Rightarrow> dflt | Some v \<Rightarrow> v)
      | _ \<Rightarrow> Inl (OtherException ''AttributeError''))"

text \<open>\<open>v[:k]\<close> on a decoded value: lists and strings can be sliced.\<close>

definition json_slice_to :: "json \<Rightarrow> int \<Rightarrow> py_exception + json" where
  "json_slice_to v k =
     (case v of
        JArr xs \<Rightarrow> Inr (JArr (slice_to xs k))
      | JStr s \<Rightarrow> Inr (JStr (slice_to s k))
      | _ \<Rightarrow> Inl (OtherException ''TypeError''))"

text \<open>\<open>for x in v\<close> on a decoded value: a list gives its elements, a string its
  characters, a \<open>dict\<close> its keys; nothing else can be iterated.\<close>

definition json_iter :: "json \<Rightarrow> py_exception + json list" where
  "json_iter v =
     (case v of
        JArr xs \<Rightarrow> Inr xs
      | JStr s \<Rightarrow> Inr (map (\<lambda>ch. JStr [ch]) s)
      | JObj kvs \<Rightarrow> Inr (map (\<lambda>kv. JStr (fst kv)) kvs)
      | _ \<Rightarrow> Inl (OtherException ''TypeError''))"

text \<open>A loop that appends to \<open>results\<close>; the first exception leaves the loop.\<close>

fun for_append :: "('a \<Rightarrow> py_exception + 'b list) \<Rightarrow> 'a list \<Rightarrow> py_exception + 'b list" where
  "for_append f [] = Inr []"
| "for_append f (x # xs) =
     exc_bind (f x) (\<lambda>ys. exc_bind (for_append f xs) (\<lambda>zs. Inr (ys @ zs)))"

definition format_value :: "SearXNGClient \<Rightarrow> json \<Rightarrow> string" where
  "format_value self v = (case v of JStr s \<Rightarrow> s | _ \<Rightarrow> py_repr self v)"

text \<open>The body of the first loop of \<open>search\<close>: one regular result.\<close>

definition result_of_item :: "json \<Rightarrow> py_exception + SearchResult list" where
  "result_of_item item =
     (exc_bind (dict_get item ''url'' (JStr '''')) (\<lambda>u.
      exc_bind (dict_get item ''title'' (JStr '''')) (\<lambda>t.
      exc_bind (dict_get item ''content'' (JStr '''')) (\<lambda>sn.
      exc_bind (dict_get item ''engine'' (JStr ''unknown'')) (\<lambda>en.
      exc_bind (dict_get item ''score'' (JNum 0)) (\<lambda>sc.
        Inr [\<lparr>sr_url = u, sr_title = t, sr_snippet = sn, sr_engine = en, sr_score = sc\<rparr>]))))))"

text \<open>The body of the innermost loop: one URL of an infobox.\<close>

definition result_of_url_info :: "SearXNGClient \<Rightarrow> json \<Rightarrow> json \<Rightarrow> py_exception + SearchResult list" where
  "result_of_url_info self infobox url_info =
     (exc_bind (dict_get url_info ''url'' (JStr '''')) (\<lambda>u.
      exc_bind (dict_get infobox ''infobox'' (JStr ''Wikipedia'')) (\<lambda>name.
      exc_bind (dict_get url_info ''title'' (JStr ''Link'')) (\<lambda>t.
      exc_bind (dict_get infobox ''content'' (JStr '''')) (\<lambda>sn.
      exc_bind (dict_get infobox ''engine'' (JStr ''wikipedia'')) (\<lambda>en.
        Inr [\<lparr>sr_url = u,
              sr_title = JStr (format_value self name @ '': '' @ format_value self t),
              sr_snippet = sn, sr_engine = en, sr_score = JNum (9 / 10)\<rparr>]))))))"

text \<open>The body of the second loop: the first three URLs of one infobox.\<close>

definition results_of_infobox :: "SearXNGClient \<Rightarrow> json \<Rightarrow> py_exception + SearchResult list" where
  "results_of_infobox self infobox =
     (exc_bind (dict_get infobox ''urls'' (JArr [])) (\<lambda>urls.
      exc_bind (json_slice_to urls 3) (\<lambda>first3.
      exc_bind (json_iter first3) (\<lambda>url_infos.
        for_append (result_of_url_info self infobox) url_infos))))"

definition search_params ::
  "string \<Rightarrow> string list option \<Rightarrow> string list option \<Rightarrow> string list option \<Rightarrow> (string \<times> string) list" where
  "search_params query categories engines excluded_engines =
     (let engines_to_use = (case engines of None \<Rightarrow> DEFAULT_ENGINES
                            | Some es \<Rightarrow> if es = [] then DEFAULT_ENGINES else es);
          excluded = (case excluded_engines of None \<Rightarrow> DEFAULT_EXCLUDED_ENGINES | Some xs \<Rightarrow> xs)
      in [(''q'', query), (''format'', ''json''), (''pageno'', ''1'')]
         @ (case categories of None \<Rightarrow> []
            | Some cs \<Rightarrow> if cs = [] then [] else [(''categories'', join '','' cs)])
         @ (if engines_to_use = [] then [] else [(''engines'', join '','' engines_to_use)])
         @ (if excluded = [] then [] else [(''disabled_engines'', join '','' excluded)]))"

text \<open>The body of the \<open>try\<close> block of \<open>search\<close>.\<close>

definition search_try ::
  "SearXNGClient \<Rightarrow> (string \<times> string) list \<Rightarrow> int \<Rightarrow> py_exception + SearchResult list" where
  "search_try self params max_results =
     exc_bind (session_get self (base_url self @ ''/search'') params) (\<lambda>response.
       if status response \<noteq> 200 then Inr []
       else
         exc_bind (response_json response) (\<lambda>data.
         exc_bind (dict_get data ''results'' (JArr [])) (\<lambda>rs.
         exc_bind (json_slice_to rs max_results) (\<lambda>capped.
         exc_bind (json_iter capped) (\<lambda>items.
         exc_bind (for_append result_of_item items) (\<lambda>regular.
         exc_bind (dict_get data ''infoboxes'' (JArr [])) (\<lambda>ibs.
         exc_bind (json_iter ibs) (\<lambda>infoboxes.
         exc_bind (for_append (results_of_infobox self) infoboxes) (\<lambda>extra.
           Inr (regular @ extra))))))))))"

text \<open>\<open>search\<close>: both handlers (\<open>aiohttp.ClientError\<close> and \<open>Exception\<close>) return the empty
  list. The result is a sum so that an exception leaving \<open>search\<close> would be an \<open>Inl\<close>.\<close>

definition search ::
  "SearXNGClient \<Rightarrow> string \<Rightarrow> string list option \<Rightarrow> string list option \<Rightarrow> string list option
     \<Rightarrow> int \<Rightarrow> py_exception + SearchResult list" where
  "search self query categories engines excluded_engines max_results =
     (let params = search_params query categories engines excluded_engines
      in case search_try self params max_results of
           Inl (ClientError m) \<Rightarrow> Inr []
         | Inl (OtherException m) \<Rightarrow> Inr []
         | Inr results \<Rightarrow> Inr results)"

section \<open>The pipeline: \<open>main\<close>\<close>

text \<open>One line of the event stream, \<open>{"type": t, ...}\<close>: \<open>plan\<close> and \<open>error\<close> carry a
  message, \<open>search\<close> a query, \<open>found\<close> a URL and a source, \<open>analyzing\<close> a URL,
  \<open>extracted\<close> a card and \<open>complete\<close> a count.\<close>

datatype event =
    EvPlan string
  | EvSearch string
  | EvFound string json
  | EvAnalyzing string
  | EvExtracted card
  | EvError string
  | EvComplete nat

text \<open>What \<open>main\<close> is given besides the query. \<open>startup\<close> is the first exception, if
  any, of \<open>get_settings()\<close>, the construction of the four clients and
  \<open>await sync.connect()\<close>. \<open>all_urls\<close> is a Python \<open>set\<close>: the model keeps its elements in
  the order they were added, and \<open>set_iteration\<close> is the order in which \<open>list(all_urls)\<close>
  yields them, which the language leaves open.\<close>

record environment =
  collab :: collaborators
  getenv_DATABASE_URL :: "string option"
  startup :: "py_exception option"
  current_year :: nat
  search_client_search :: "string \<Rightarrow> int \<Rightarrow> py_exception + SearchResult list"
  set_iteration :: "string list \<Rightarrow> string list"
  crawler_crawl_batch :: "string list \<Rightarrow> py_exception + CrawlResult list"
  sync_close :: "py_exception option"

text \<open>\<open>str.strip(chars)\<close>, and the white space that \<open>str.strip()\<close> removes among the code
  points below 256.\<close>

definition strip_chars :: "char list \<Rightarrow> string \<Rightarrow> string" where
  "strip_chars cs s = rev (dropWhile (\<lambda>ch. ch \<in> set cs) (rev (dropWhile (\<lambda>ch. ch \<in> set cs) s)))"

definition py_whitespace :: "char list" where
  "py_whitespace = map char_of [9, 10, 11, 12, 13, 28, 29, 30, 31, 32, 133, 160 :: nat]"

definition strip :: "string \<Rightarrow> string" where
  "strip s = strip_chars py_whitespace s"

text \<open>The value of \<open>db_url\<close> at the test \<open>if not db_url\<close>.\<close>

definition db_url_of :: "string option \<Rightarrow> string option" where
  "db_url_of v =
     (case v of
        None \<Rightarrow> None
      | Some s \<Rightarrow> if s = [] then Some s
                  else Some (strip_chars [CHR 0x27] (strip_chars [CHR 0x22] (strip s))))"

definition search_queries :: "nat \<Rightarrow> string \<Rightarrow> string list" where
  "search_queries year query =
     (let base_query = strip query
      in [''high school '' @ base_query @ '' summer program '' @ str_nat year,
          base_query @ '' internship for high school students'',
          base_query @ '' research opportunities for high schoolers'',
          base_query @ '' competitions high school '' @ str_nat year,
          base_query @ '' volunteer work for teens''])"

text \<open>\<open>do_search\<close>: the event it emits, and what it returns or raises.\<close>

definition do_search :: "environment \<Rightarrow> string \<Rightarrow> event list \<times> (py_exception + SearchResult list)" where
  "do_search env search_query =
     ([EvSearch search_query],
      (case search_client_search env search_query 10 of
         Inl e \<Rightarrow> Inr []
       | Inr results \<Rightarrow> Inr results))"

text \<open>\<open>asyncio.gather\<close>: the list of the results, unless a task raised.\<close>

fun gather :: "(py_exception + 'a) list \<Rightarrow> py_exception + 'a list" where
  "gather [] = Inr []"
| "gather (Inl e # ts) = Inl e"
| "gather (Inr x # ts) = (case gather ts of Inl e \<Rightarrow> Inl e | Inr xs \<Rightarrow> Inr (x # xs))"

definition skip_patterns :: "string list" where
  "skip_patterns =
     [''reddit.com'', ''quora.com'', ''forum'', ''discussion'', ''blog'',
      ''linkedin.com'', ''facebook.com'', ''twitter.com'', ''x.com'',
      ''instagram.com'', ''tiktok.com'', ''indeed.com'', ''glassdoor.com'',
      ''ziprecruiter.com'', ''youtube.com'', ''pinterest.com'']"

text \<open>The truth value of a decoded value, for \<open>result.title or "Web Result"\<close>.\<close>

fun py_truthy :: "json \<Rightarrow> bool" where
  "py_truthy JNull = False"
| "py_truthy (JBool b) = b"
| "py_truthy (JNum q) = (q \<noteq> 0)"
| "py_truthy (JStr s) = (s \<noteq> [])"
| "py_truthy (JArr xs) = (xs \<noteq> [])"
| "py_truthy (JObj kvs) = (kvs \<noteq> [])"

text \<open>The two nested loops that collect and filter the URLs, over the results of all
  queries in order. The result is the set, the \<open>found\<close> events emitted, and the
  exception that ended the loop, if any: \<open>result.url.lower()\<close> needs a \<open>str\<close>.\<close>

fun collect_urls :: "SearchResult list \<Rightarrow> string list \<Rightarrow> string list \<times> event list \<times> py_exception option" where
  "collect_urls [] all_urls = (all_urls, [], None)"
| "collect_urls (result # rest) all_urls =
     (case sr_url result of
        JStr u \<Rightarrow>
          (let url_lower = lower u
           in if list_ex (\<lambda>skip. str_in skip url_lower) skip_patterns
              then collect_urls rest all_urls
              else if u \<notin> set all_urls
              then (case collect_urls rest (all_urls @ [u]) of
                      (urls, evs, exc) \<Rightarrow>
                        (urls,
                         EvFound u (if py_truthy (sr_title result) then sr_title result
                                    else JStr ''Web Result'') # evs,
                         exc))
              else collect_urls rest all_urls)
      | _ \<Rightarrow> (all_urls, [], Some (OtherException ''AttributeError'')))"

text \<open>\<open>urls_to_process = list(all_urls)[:10]\<close>\<close>

definition urls_to_process :: "environment \<Rightarrow> string list \<Rightarrow> string list" where
  "urls_to_process env all_urls = take 10 (set_iteration env all_urls)"

text \<open>\<open>asyncio.gather\<close> over \<open>extract_and_save\<close>, the tasks taken one after the other.
  No task emits an event, and a collaborator's answer depends on its arguments only,
  so another interleaving changes the order of the calls in the \<open>world\<close> and nothing
  else.\<close>

fun extract_all :: "collaborators \<Rightarrow> world \<Rightarrow> CrawlResult list \<Rightarrow> url_result list \<times> world" where
  "extract_all c w [] = ([], w)"
| "extract_all c w (cr # crs) =
     (case extract_and_save c w cr of
        (r, w') \<Rightarrow> (case extract_all c w' crs of (rs, w'') \<Rightarrow> (r # rs, w'')))"

text \<open>The loop that emits the results: the events, and \<open>success_count\<close> at its end.\<close>

fun emit_results :: "url_result list \<Rightarrow> nat \<Rightarrow> event list \<times> nat" where
  "emit_results [] success_count = ([], success_count)"
| "emit_results (Succeeded u cd # rest) success_count =
     (case emit_results rest (success_count + 1) of (evs, n) \<Rightarrow> (EvExtracted cd # evs, n))"
| "emit_results (Failed msg u # rest) success_count =
     (if msg \<noteq> []
      then (case emit_results rest success_count of (evs, n) \<Rightarrow> (EvError (u @ '': '' @ msg) # evs, n))
      else emit_results rest success_count)"

text \<open>\<open>main\<close>: the events written, the exception that left \<open>main\<close> if one did, and the
  world afterwards.\<close>

definition main :: "environment \<Rightarrow> world \<Rightarrow> string \<Rightarrow> event list \<times> py_exception option \<times> world" where
  "main env w query =
     (let ev1 = [EvPlan (''Analyzing request: '' @ [CHR 0x27] @ query @ [CHR 0x27])];
          db_url = db_url_of (getenv_DATABASE_URL env)
      in if db_url = None \<or> db_url = Some []
         then (ev1 @ [EvError ''DATABASE_URL not found''], None, w)
         else (case startup env of
            Some e \<Rightarrow> (ev1, Some e, w)
          | None \<Rightarrow>
              (let ev2 = ev1 @ [EvPlan ''Generating targeted high school search strategies...''];
                   searches = map (do_search env) (search_queries (current_year env) query);
                   ev3 = ev2 @ concat (map fst searches)
               in (case gather (map snd searches) of
                     Inl e \<Rightarrow> (ev3, Some e, w)
                   | Inr search_results \<Rightarrow>
                       (case collect_urls (concat search_results) [] of
                          (all_urls, found, Some e) \<Rightarrow> (ev3 @ found, Some e, w)
                        | (all_urls, found, None) \<Rightarrow>
                            (let to_process = urls_to_process env all_urls;
                                 ev4 = ev3 @ found
                                       @ [EvPlan (''Found '' @ str_nat (length all_urls) @ '' sources. Analyzing ''
                                                  @ str_nat (length to_process) @ '' in parallel...'')]
                                       @ map EvAnalyzing to_process
                             in (case crawler_crawl_batch env to_process of
                                   Inl e \<Rightarrow> (ev4, Some e, w)
                                 | Inr crawl_results \<Rightarrow>
                                     (case extract_all (collab env) w crawl_results of
                                        (results, w') \<Rightarrow>
                                          (case emit_results results 0 of
                                             (evs, success_count) \<Rightarrow>
                                               (ev4 @ evs @ [EvComplete success_count],
                                                sync_close env, w'))))))))))"

text \<open>The block under \<open>if __name__ == "__main__"\<close>: the events of the whole run, its
  exit status and the world afterwards. \<open>argv\<close> is \<open>sys.argv\<close>. An exception that
  leaves \<open>main\<close> is caught here and reported as one more \<open>error\<close> event.\<close>

definition run_script :: "environment \<Rightarrow> world \<Rightarrow> string list \<Rightarrow> event list \<times> nat \<times> world" where
  "run_script env w argv =
     (if length argv < 2
      then ([EvError (''Usage: python quick_discovery.py '' @ [CHR 0x22] @ ''search query'' @ [CHR 0x22])], 1, w)
      else (case main env w (join '' '' (tl argv)) of
              (evs, None, w') \<Rightarrow> (evs, 0, w')
            | (evs, Some e, w') \<Rightarrow> (evs @ [EvError (exc_str e)], 1, w')))"

section \<open>The extraction gate: \<open>asyncio.Semaphore(5)\<close>\<close>

text \<open>The tasks that \<open>asyncio.gather\<close> runs for \<open>extract_and_save\<close> share one semaphore,
  created once in \<open>main\<close> with the value 5. A task gives up control only at an
  \<open>await\<close>, so \<open>extract_and_save\<close> falls into the pieces between them. A task is
  \<open>Ready\<close> until it runs. It is \<open>ReturnedEarly\<close> when it returned before the
  \<open>async with\<close> block (failed crawl, short content). It is \<open>InGate\<close> from the moment
  \<open>async with extraction_semaphore\<close> has acquired the semaphore, where it issues the
  call \<open>extractor.extract(markdown, url)\<close>, to the moment it leaves the block; it is
  \<open>Done\<close> when it has left the block.\<close>

datatype task = Ready CrawlResult | InGate CrawlResult | Done url_result | ReturnedEarly url_result

fun in_gate :: "task \<Rightarrow> bool" where
  "in_gate (InGate cr) = True"
| "in_gate (Ready cr) = False"
| "in_gate (Done r) = False"
| "in_gate (ReturnedEarly r) = False"

fun left_gate :: "task \<Rightarrow> bool" where
  "left_gate (Done r) = True"
| "left_gate (Ready cr) = False"
| "left_gate (InGate cr) = False"
| "left_gate (ReturnedEarly r) = False"

text \<open>The two checks before the \<open>async with\<close> block.\<close>

definition reaches_gate :: "CrawlResult \<Rightarrow> bool" where
  "reaches_gate cr = (cr_success cr \<and> \<not> length (markdown_or_empty cr) < 100)"

text \<open>The first piece inside the block: the call of the extraction agent is issued.\<close>

definition begin_extract :: "world \<Rightarrow> CrawlResult \<Rightarrow> world" where
  "begin_extract w crawl_result =
     w\<lparr>extract_calls := extract_calls w @ [(markdown_or_empty crawl_result, cr_url crawl_result)]\<rparr>"

text \<open>The rest of the block, from the answer of the extraction agent to the \<open>return\<close>
  or the handler.\<close>

definition finish_extract :: "collaborators \<Rightarrow> world \<Rightarrow> CrawlResult \<Rightarrow> url_result \<times> world" where
  "finish_extract c w1 crawl_result =
     (case (case extractor_extract c (markdown_or_empty crawl_result) (cr_url crawl_result) of
              Inl e \<Rightarrow> (Inl e, w1)
            | Inr extraction \<Rightarrow> extract_and_save_decide c w1 (cr_url crawl_result) extraction) of
        (Inl e, w') \<Rightarrow> (Failed (take 100 (exc_str e)) (cr_url crawl_result), w')
      | (Inr r, w') \<Rightarrow> (r, w'))"

record scheduler =
  permits :: nat
  tasks :: "task list"
  sched_world :: world

definition initial_scheduler :: "world \<Rightarrow> CrawlResult list \<Rightarrow> scheduler" where
  "initial_scheduler w crawl_results =
     \<lparr>permits = 5, tasks = map Ready crawl_results, sched_world = w\<rparr>"

text \<open>The calls of the extraction agent in flight are those of the tasks in the block.\<close>

definition in_flight :: "scheduler \<Rightarrow> nat" where
  "in_flight s = length (filter in_gate (tasks s))"

text \<open>One step of the event loop: a task returns before the block; a task acquires the
  semaphore, which it can only while the value is positive, and issues its call; a
  task in the block runs to the end of the block and releases the semaphore.\<close>

inductive step :: "collaborators \<Rightarrow> scheduler \<Rightarrow> scheduler \<Rightarrow> bool" for c :: collaborators where
  early_return:
    "i < length (tasks s) \<Longrightarrow> tasks s ! i = Ready cr \<Longrightarrow> \<not> reaches_gate cr
     \<Longrightarrow> step c s (s\<lparr>tasks := (tasks s)[i := ReturnedEarly (fst (extract_and_save c (sched_world s) cr))]\<rparr>)"
| acquire:
    "i < length (tasks s) \<Longrightarrow> tasks s ! i = Ready cr \<Longrightarrow> reaches_gate cr
     \<Longrightarrow> 0 < permits s
     \<Longrightarrow> step c s (s\<lparr>permits := permits s - 1, tasks := (tasks s)[i := InGate cr],
                      sched_world := begin_extract (sched_world s) cr\<rparr>)"
| release:
    "i < length (tasks s) \<Longrightarrow> tasks s ! i = InGate cr
     \<Longrightarrow> step c s (s\<lparr>permits := permits s + 1,
                      tasks := (tasks s)[i := Done (fst (finish_extract c (sched_world s) cr))],
                      sched_world := snd (finish_extract c (sched_world s) cr)\<rparr>)"

text \<open>The states a run can be in.\<close>

inductive reachable :: "collaborators \<Rightarrow> world \<Rightarrow> CrawlResult list \<Rightarrow> scheduler \<Rightarrow> bool"
  for c :: collaborators and w :: world and crawl_results :: "CrawlResult list" where
  start: "reachable c w crawl_results (initial_scheduler w crawl_results)"
| next_step: "reachable c w crawl_results s \<Longrightarrow> step c s s' \<Longrightarrow> reachable c w crawl_results s'"

text \<open>The state in which the first \<open>k\<close> tasks have entered the block and the others
  have not run yet.\<close>

definition admitted :: "nat \<Rightarrow> world \<Rightarrow> CrawlResult list \<Rightarrow> scheduler" where
  "admitted k w crawl_results =
     \<lparr>permits = 5 - k,
      tasks = map InGate (take k crawl_results) @ map Ready (drop k crawl_results),
      sched_world = foldl begin_extract w (take k crawl_results)\<rparr>"

section \<open>Concrete inputs\<close>

text \<open>The inputs at which the theorems below are instantiated and the code is run.\<close>

definition long_markdown :: string where
  "long_markdown = replicate 100 (CHR ''x'')"

definition crawl_ok :: "string \<Rightarrow> CrawlResult" where
  "crawl_ok u = \<lparr>cr_url = u, cr_success = True, markdown = Some long_markdown, cr_error = None\<rparr>"

definition good_card :: ECCard where
  "good_card = \<lparr>title = ''MIT Summer Research Program'', organization = Some ''MIT'',
                 ec_type = ''research'', location = ''Cambridge, MA'', is_expired = False,
                 timing_type = ANNUAL, recheck_days = 30\<rparr>"

definition extraction_of :: "ECCard \<Rightarrow> rat option \<Rightarrow> ExtractionResult" where
  "extraction_of ec conf = \<lparr>ex_success = True, ex_confidence = conf, ec_card = Some ec, ex_error = None\<rparr>"

definition collaborators_returning :: "ExtractionResult \<Rightarrow> collaborators" where
  "collaborators_returning e =
     \<lparr>crawler_crawl = (\<lambda>u. Inr (crawl_ok u)),
      extractor_extract = (\<lambda>md u. Inr e),
      sync_upsert_opportunity = (\<lambda>ec. None),
      use_embeddings = False,
      generate_for_indexing = (\<lambda>ec. None)\<rparr>"

definition empty_world :: world where
  "empty_world = \<lparr>extract_calls = [], upsert_calls = [], index_calls = []\<rparr>"

definition ranking_expired_card :: ECCard where
  "ranking_expired_card = good_card\<lparr>title := ''Top 10 Summer Programs'', is_expired := True\<rparr>"

definition expired_seasonal_card :: ECCard where
  "expired_seasonal_card = good_card\<lparr>is_expired := True, timing_type := SEASONAL\<rparr>"

definition expired_one_time_card :: ECCard where
  "expired_one_time_card = good_card\<lparr>is_expired := True, timing_type := ONE_TIME\<rparr>"

definition numeric_title_card :: ECCard where
  "numeric_title_card = good_card\<lparr>title := ''94 Summer Programs for Teens''\<rparr>"

definition example_url :: string where
  "example_url = ''https://mit.edu/summer''"

definition short_crawl :: CrawlResult where
  "short_crawl = \<lparr>cr_url = example_url, cr_success = True,
                   markdown = Some (replicate 40 (CHR ''x'')), cr_error = None\<rparr>"

definition short_collaborators :: collaborators where
  "short_collaborators =
     (collaborators_returning (extraction_of good_card (Some 1)))\<lparr>crawler_crawl := (\<lambda>u. Inr short_crawl)\<rparr>"

definition wiki_payload :: json where
  "wiki_payload =
     JObj [(''results'',
            JArr [JObj [(''url'', JStr ''https://a.example/one''), (''title'', JStr ''One'')],
                  JObj [(''url'', JStr ''https://a.example/two''), (''title'', JStr ''Two'')]]),
           (''infoboxes'',
            JArr [JObj [(''infobox'', JStr ''MIT''),
                        (''urls'',
                         JArr [JObj [(''url'', JStr ''https://mit.edu''), (''title'', JStr ''Home'')],
                               JObj [(''url'', JStr ''https://mit.edu/admissions'')],
                               JObj [(''url'', JStr ''https://mit.edu/research'')],
                               JObj [(''url'', JStr ''https://mit.edu/news'')]])]])]"

definition wiki_client :: SearXNGClient where
  "wiki_client =
     \<lparr>base_url = ''http://localhost:8080'',
      session_get = (\<lambda>u params. Inr \<lparr>status = 200, response_json = Inr wiki_payload\<rparr>),
      py_repr = (\<lambda>v. ''?'')\<rparr>"

definition offline_client :: SearXNGClient where
  "offline_client = wiki_client\<lparr>session_get := (\<lambda>u params. Inl (ClientError ''Cannot connect to host''))\<rparr>"

definition busy_client :: SearXNGClient where
  "busy_client = wiki_client\<lparr>session_get := (\<lambda>u params. Inr \<lparr>status = 429, response_json = Inr wiki_payload\<rparr>)\<rparr>"

definition garbled_client :: SearXNGClient where
  "garbled_client =
     wiki_client\<lparr>session_get :=
       (\<lambda>u params. Inr \<lparr>status = 200, response_json = Inr (JObj [(''results'', JArr [JStr ''oops''])])\<rparr>)\<rparr>"

text \<open>Observers for a payload of the expected shape.\<close>

fun is_obj :: "json \<Rightarrow> bool" where
  "is_obj (JObj kvs) = True"
| "is_obj JNull = False"
| "is_obj (JBool b) = False"
| "is_obj (JNum q) = False"
| "is_obj (JStr s) = False"
| "is_obj (JArr xs) = False"

text \<open>The list under the key \<open>urls\<close> of an infobox whose URLs are all \<open>dict\<close>s.\<close>

fun infobox_urls :: "json \<Rightarrow> json list option" where
  "infobox_urls (JObj kvs) =
     (case map_of kvs ''urls'' of
        Some (JArr urls) \<Rightarrow> if list_all is_obj urls then Some urls else None
      | _ \<Rightarrow> None)"
| "infobox_urls JNull = None"
| "infobox_urls (JBool b) = None"
| "infobox_urls (JNum q) = None"
| "infobox_urls (JStr s) = None"
| "infobox_urls (JArr xs) = None"

definition example_env :: environment where
  "example_env =
     \<lparr>collab = collaborators_returning (extraction_of good_card (Some (9 / 10))),
      getenv_DATABASE_URL = Some ''postgresql://scraper@db.example/ec'',
      startup = None,
      current_year = 2026,
      search_client_search = (\<lambda>q k. search wiki_client q None None None k),
      set_iteration = (\<lambda>urls. urls),
      crawler_crawl_batch = (\<lambda>urls. Inr (map crawl_ok urls)),
      sync_close = None\<rparr>"

definition flaky_env :: environment where
  "flaky_env =
     example_env\<lparr>search_client_search :=
       (\<lambda>q k. if q = ''robotics internship for high school students''
               then Inl (OtherException ''boom'')
               else search wiki_client q None None None k)\<rparr>"

text \<open>Observers of the event stream and of the search results.\<close>

fun found_urls :: "event list \<Rightarrow> string list" where
  "found_urls [] = []"
| "found_urls (EvFound u s # evs) = u # found_urls evs"
| "found_urls (EvPlan m # evs) = found_urls evs"
| "found_urls (EvSearch q # evs) = found_urls evs"
| "found_urls (EvAnalyzing u # evs) = found_urls evs"
| "found_urls (EvExtracted cd # evs) = found_urls evs"
| "found_urls (EvError m # evs) = found_urls evs"
| "found_urls (EvComplete n # evs) = found_urls evs"

fun analyzing_urls :: "event list \<Rightarrow> string list" where
  "analyzing_urls [] = []"
| "analyzing_urls (EvAnalyzing u # evs) = u # analyzing_urls evs"
| "analyzing_urls (EvPlan m # evs) = analyzing_urls evs"
| "analyzing_urls (EvSearch q # evs) = analyzing_urls evs"
| "analyzing_urls (EvFound u s # evs) = analyzing_urls evs"
| "analyzing_urls (EvExtracted cd # evs) = analyzing_urls evs"
| "analyzing_urls (EvError m # evs) = analyzing_urls evs"
| "analyzing_urls (EvComplete n # evs) = analyzing_urls evs"

text \<open>The URLs of the results whose \<open>url\<close> is a \<open>str\<close>, in order.\<close>

fun url_strings :: "SearchResult list \<Rightarrow> string list" where
  "url_strings [] = []"
| "url_strings (r # rs) = (case sr_url r of JStr u \<Rightarrow> u # url_strings rs | _ \<Rightarrow> url_strings rs)"

fun is_str :: "json \<Rightarrow> bool" where
  "is_str (JStr s) = True"
| "is_str JNull = False"
| "is_str (JBool b) = False"
| "is_str (JNum q) = False"
| "is_str (JArr xs) = False"
| "is_str (JObj kvs) = False"

text \<open>The test of the loop: the lower-cased URL holds one of the patterns.\<close>

definition denylisted :: "string \<Rightarrow> bool" where
  "denylisted u = list_ex (\<lambda>skip. str_in skip (lower u)) skip_patterns"

definition search_result :: "string \<Rightarrow> string \<Rightarrow> SearchResult" where
  "search_result u t =
     \<lparr>sr_url = JStr u, sr_title = JStr t, sr_snippet = JStr '''', sr_engine = JStr ''yahoo'',
      sr_score = JNum 0\<rparr>"

definition overlapping_results :: "SearchResult list" where
  "overlapping_results =
     [search_result example_url ''MIT'',
      search_result ''https://www.Reddit.com/r/robotics'' ''Reddit'',
      search_result example_url ''MIT again'',
      search_result ''https://first.example/teams'' '''']"

definition site_url :: "nat \<Rightarrow> string" where
  "site_url n = ''https://site.example/'' @ str_nat n"

definition eleven_results :: "SearchResult list" where
  "eleven_results = map (\<lambda>n. search_result (site_url n) ''Site'') [0..<11]"

definition reversing_env :: environment where
  "reversing_env =
     example_env\<lparr>set_iteration := rev,
       search_client_search :=
         (\<lambda>q k. if q = ''high school robotics summer program 2026'' then Inr (take 6 eleven_results)
                 else if q = ''robotics internship for high school students'' then Inr (drop 6 eleven_results)
                 else Inr [])\<rparr>"

text \<open>The results of all queries of a run, in the order in which the loop visits them.\<close>

definition merged_results :: "environment \<Rightarrow> string \<Rightarrow> SearchResult list" where
  "merged_results env query =
     concat (map (\<lambda>q. case search_client_search env q 10 of Inl e \<Rightarrow> [] | Inr rs \<Rightarrow> rs)
                 (search_queries (current_year env) query))"

fun is_complete :: "event \<Rightarrow> bool" where
  "is_complete (EvComplete n) = True"
| "is_complete (EvPlan m) = False"
| "is_complete (EvSearch q) = False"
| "is_complete (EvFound u s) = False"
| "is_complete (EvAnalyzing u) = False"
| "is_complete (EvExtracted cd) = False"
| "is_complete (EvError m) = False"

fun is_extracted :: "event \<Rightarrow> bool" where
  "is_extracted (EvExtracted cd) = True"
| "is_extracted (EvPlan m) = False"
| "is_extracted (EvSearch q) = False"
| "is_extracted (EvFound u s) = False"
| "is_extracted (EvAnalyzing u) = False"
| "is_extracted (EvError m) = False"
| "is_extracted (EvComplete n) = False"

definition unconfigured_env :: environment where
  "unconfigured_env = example_env\<lparr>getenv_DATABASE_URL := None\<rparr>"

definition unreachable_db_env :: environment where
  "unreachable_db_env = example_env\<lparr>startup := Some (OtherException ''connection refused'')\<rparr>"

definition closing_env :: environment where
  "closing_env = example_env\<lparr>sync_close := Some (OtherException ''connection already closed'')\<rparr>"

definition crawler_down_env :: environment where
  "crawler_down_env =
     example_env\<lparr>crawler_crawl_batch := (\<lambda>urls. Inl (OtherException ''browser not installed''))\<rparr>"

definition null_url_payload :: json where
  "null_url_payload = JObj [(''results'', JArr [JObj [(''url'', JNull), (''title'', JStr ''No link'')]])]"

definition null_url_client :: SearXNGClient where
  "null_url_client =
     wiki_client\<lparr>session_get := (\<lambda>u params. Inr \<lparr>status = 200, response_json = Inr null_url_payload\<rparr>)\<rparr>"

definition null_url_env :: environment where
  "null_url_env =
     example_env\<lparr>search_client_search :=
       (\<lambda>q k. if q = ''robotics internship for high school students''
               then search null_url_client q None None None k
               else search wiki_client q None None None k)\<rparr>"

definition six_crawls :: "CrawlResult list" where
  "six_crawls = map (\<lambda>n. crawl_ok (site_url n)) [0..<6]"

definition wiki_results :: "SearchResult list" where
  "wiki_results = projr (search wiki_client ''robotics'' None None None 10)"

definition example_argv :: "string list" where
  "example_argv = [''quick_discovery.py'', ''robotics'']"

section \<open>Facts about the helpers\<close>

lemma length_long_markdown: "length long_markdown = 100"
  by (simp add: long_markdown_def)

section \<open>The acceptance filter\<close>

lemma extract_and_save_low_confidence:
  assumes "extractor_extract c (markdown_or_empty cr) (cr_url cr) = Inr e"
    and "confidence_or_zero (ex_confidence e) < 2 / 5"
  shows "is_failed (fst (extract_and_save c w cr)) \<and> upsert_calls (snd (extract_and_save c w cr)) = upsert_calls w"
  using assms
  by (simp add: extract_and_save_def extract_and_save_try_def extract_and_save_decide_def Let_def split: option.splits)

lemma process_url_low_confidence:
  assumes "crawler_crawl c url = Inr cr" "extractor_extract c (markdown_or_empty cr) url = Inr e"
    and "confidence_or_zero (ex_confidence e) < 2 / 5"
  shows "is_failed (fst (process_url c w url)) \<and> upsert_calls (snd (process_url c w url)) = upsert_calls w"
  using assms
  by (simp add: process_url_def process_url_try_def process_url_decide_def Let_def split: option.splits)

lemma extract_and_save_decide_boundary:
  assumes "2 / 5 \<le> q"
  shows "extract_and_save_decide c w u (e\<lparr>ex_confidence := Some (2 / 5)\<rparr>)
       = extract_and_save_decide c w u (e\<lparr>ex_confidence := Some q\<rparr>)"
  using assms
  by (simp add: extract_and_save_decide_def Let_def confidence_or_zero_def split: option.splits)

lemma process_url_decide_boundary:
  assumes "2 / 5 \<le> q"
  shows "process_url_decide c w u (e\<lparr>ex_confidence := Some (2 / 5)\<rparr>)
       = process_url_decide c w u (e\<lparr>ex_confidence := Some q\<rparr>)"
  using assms
  by (simp add: process_url_decide_def Let_def confidence_or_zero_def split: option.splits)

lemma extract_and_save_decide_extractor [simp]:
  "extract_and_save_decide (c\<lparr>extractor_extract := f\<rparr>) w u e = extract_and_save_decide c w u e"
  by (simp add: extract_and_save_decide_def cong: option.case_cong if_cong)

lemma process_url_decide_extractor [simp]:
  "process_url_decide (c\<lparr>extractor_extract := f\<rparr>) w u e = process_url_decide c w u e"
  by (simp add: process_url_decide_def cong: option.case_cong if_cong)

text \<open>
  Claim C1. Whenever the confidence of an extraction outcome is below 0.4, an absent
  confidence counting as 0.0, both paths reject: the result is an error and nothing is
  handed to the persistence sink, whatever the other fields of the outcome and the
  record are. A confidence of exactly 0.4 is not caught by the rule: the outcome is
  treated exactly as one with any higher confidence \<open>q\<close>.
\<close>

theorem low_confidence_rejected:
  "(extractor_extract c (markdown_or_empty cr) (cr_url cr) = Inr e
      \<and> confidence_or_zero (ex_confidence e) < 2 / 5
    \<longrightarrow> is_failed (fst (extract_and_save c w cr))
        \<and> upsert_calls (snd (extract_and_save c w cr)) = upsert_calls w)
   \<and> (crawler_crawl c url = Inr cr \<and> extractor_extract c (markdown_or_empty cr) url = Inr e
      \<and> confidence_or_zero (ex_confidence e) < 2 / 5
    \<longrightarrow> is_failed (fst (process_url c w url))
        \<and> upsert_calls (snd (process_url c w url)) = upsert_calls w)
   \<and> (2 / 5 \<le> q
    \<longrightarrow> extract_and_save (c\<lparr>extractor_extract := \<lambda>md u. Inr (e\<lparr>ex_confidence := Some (2 / 5)\<rparr>)\<rparr>) w cr
          = extract_and_save (c\<lparr>extractor_extract := \<lambda>md u. Inr (e\<lparr>ex_confidence := Some q\<rparr>)\<rparr>) w cr
        \<and> process_url (c\<lparr>extractor_extract := \<lambda>md u. Inr (e\<lparr>ex_confidence := Some (2 / 5)\<rparr>)\<rparr>) w url
          = process_url (c\<lparr>extractor_extract := \<lambda>md u. Inr (e\<lparr>ex_confidence := Some q\<rparr>)\<rparr>) w url)"
proof (intro conjI impI)
  assume "extractor_extract c (markdown_or_empty cr) (cr_url cr) = Inr e
      \<and> confidence_or_zero (ex_confidence e) < 2 / 5"
  then show "is_failed (fst (extract_and_save c w cr))"
    and "upsert_calls (snd (extract_and_save c w cr)) = upsert_calls w"
    using extract_and_save_low_confidence by blast+
next
  assume "crawler_crawl c url = Inr cr \<and> extractor_extract c (markdown_or_empty cr) url = Inr e
      \<and> confidence_or_zero (ex_confidence e) < 2 / 5"
  then show "is_failed (fst (process_url c w url))"
    and "upsert_calls (snd (process_url c w url)) = upsert_calls w"
    using process_url_low_confidence by blast+
next
  assume q: "2 / 5 \<le> q"
  show "extract_and_save (c\<lparr>extractor_extract := \<lambda>md u. Inr (e\<lparr>ex_confidence := Some (2 / 5)\<rparr>)\<rparr>) w cr
          = extract_and_save (c\<lparr>extractor_extract := \<lambda>md u. Inr (e\<lparr>ex_confidence := Some q\<rparr>)\<rparr>) w cr"
    by (simp add: extract_and_save_def extract_and_save_try_def Let_def
        extract_and_save_decide_boundary [OF q])
  show "process_url (c\<lparr>extractor_extract := \<lambda>md u. Inr (e\<lparr>ex_confidence := Some (2 / 5)\<rparr>)\<rparr>) w url
          = process_url (c\<lparr>extractor_extract := \<lambda>md u. Inr (e\<lparr>ex_confidence := Some q\<rparr>)\<rparr>) w url"
    by (simp add: process_url_def process_url_try_def Let_def
        process_url_decide_boundary [OF q] split: sum.splits)
qed

theorem low_confidence_rejected_witness:
  "is_failed (fst (extract_and_save (collaborators_returning (extraction_of good_card (Some (39 / 100))))
                     empty_world (crawl_ok ''https://mit.edu/summer'')))
   \<and> is_failed (fst (process_url (collaborators_returning (extraction_of good_card None))
                     empty_world ''https://mit.edu/summer''))
   \<and> fst (extract_and_save (collaborators_returning (extraction_of good_card (Some (2 / 5))))
                     empty_world (crawl_ok ''https://mit.edu/summer''))
     = Succeeded ''https://mit.edu/summer'' (card_of good_card)
   \<and> extract_and_save (collaborators_returning (extraction_of good_card (Some (2 / 5))))
                     empty_world (crawl_ok ''https://mit.edu/summer'')
     = extract_and_save (collaborators_returning (extraction_of good_card (Some 1)))
                     empty_world (crawl_ok ''https://mit.edu/summer'')"
proof -
  have a: "is_failed (fst (extract_and_save (collaborators_returning (extraction_of good_card (Some (39 / 100))))
                     empty_world (crawl_ok ''https://mit.edu/summer'')))"
    using low_confidence_rejected [of "collaborators_returning (extraction_of good_card (Some (39 / 100)))"
        "crawl_ok ''https://mit.edu/summer''" "extraction_of good_card (Some (39 / 100))" empty_world
        "''https://mit.edu/summer''" 1]
    by (simp add: collaborators_returning_def extraction_of_def confidence_or_zero_def)
  have b: "is_failed (fst (process_url (collaborators_returning (extraction_of good_card None))
                     empty_world ''https://mit.edu/summer''))"
    using low_confidence_rejected [of "collaborators_returning (extraction_of good_card None)"
        "crawl_ok ''https://mit.edu/summer''" "extraction_of good_card None" empty_world
        "''https://mit.edu/summer''" 1]
    by (simp add: collaborators_returning_def extraction_of_def confidence_or_zero_def crawl_ok_def)
  have c: "extract_and_save (collaborators_returning (extraction_of good_card (Some (2 / 5))))
                     empty_world (crawl_ok ''https://mit.edu/summer'')
     = extract_and_save (collaborators_returning (extraction_of good_card (Some 1)))
                     empty_world (crawl_ok ''https://mit.edu/summer'')"
    using low_confidence_rejected [of "collaborators_returning (extraction_of good_card None)"
        "crawl_ok ''https://mit.edu/summer''" "extraction_of good_card None" empty_world
        "''https://mit.edu/summer''" 1]
    by (simp add: collaborators_returning_def extraction_of_def)
  have d: "fst (extract_and_save (collaborators_returning (extraction_of good_card (Some (2 / 5))))
                     empty_world (crawl_ok ''https://mit.edu/summer''))
     = Succeeded ''https://mit.edu/summer'' (card_of good_card)"
    by code_simp
  from a b c d show ?thesis by blast
qed

lemma extract_and_save_decide_one_time:
  assumes "ec_card e = Some ec" "is_expired ec" "timing_type ec = ONE_TIME"
  shows "\<exists>m. extract_and_save_decide c w u e = (Inr (Failed m u), w)"
  using assms by (simp add: extract_and_save_decide_def Let_def)

lemma process_url_decide_one_time:
  assumes "ec_card e = Some ec" "is_expired ec" "timing_type ec = ONE_TIME"
  shows "\<exists>m. process_url_decide c w u e = (Inr (Failed m u), w)"
  using assms by (simp add: process_url_decide_def Let_def)

lemma extract_and_save_decide_recurring:
  assumes "ec_card e = Some ec" "is_expired ec" "timing_type ec \<in> {ANNUAL, RECURRING, SEASONAL}"
    and "ex_success e" "2 / 5 \<le> confidence_or_zero (ex_confidence e)"
    and "title ec \<noteq> ''Unknown Opportunity''" "organization ec \<notin> {Some ''Unknown'', None, Some ''''}"
    and "\<not> list_ex (\<lambda>skip. str_in skip (lower (title ec))) [''best '', ''top '', ''ranking'', ''list of'']"
  shows "upsert_calls (snd (extract_and_save_decide c w u e)) = upsert_calls w @ [ec\<lparr>recheck_days := 3\<rparr>]"
    and "sync_upsert_opportunity c (ec\<lparr>recheck_days := 3\<rparr>) = None
         \<Longrightarrow> fst (extract_and_save_decide c w u e) = Inr (Succeeded u (card_of ec))"
    and "sync_upsert_opportunity c (ec\<lparr>recheck_days := 3\<rparr>) = Some x
         \<Longrightarrow> fst (extract_and_save_decide c w u e) = Inl x"
  using assms by (auto simp add: extract_and_save_decide_def Let_def card_of_def split: option.splits)

lemma process_url_decide_recurring:
  assumes "ec_card e = Some ec" "is_expired ec" "timing_type ec \<in> {ANNUAL, RECURRING, SEASONAL}"
    and "ex_success e" "2 / 5 \<le> confidence_or_zero (ex_confidence e)"
    and "title ec \<noteq> ''Unknown Opportunity''" "organization ec \<notin> {Some ''Unknown'', None, Some ''''}"
    and "\<not> list_ex (\<lambda>skip. str_in skip (lower (title ec)))
             [''best '', ''top '', ''ranking'', ''list of'', ''94 '', ''100 '']"
  shows "upsert_calls (snd (process_url_decide c w u e)) = upsert_calls w @ [ec\<lparr>recheck_days := 3\<rparr>]"
    and "sync_upsert_opportunity c (ec\<lparr>recheck_days := 3\<rparr>) = None
         \<Longrightarrow> fst (process_url_decide c w u e) = Inr (Succeeded u (card_of ec))"
    and "sync_upsert_opportunity c (ec\<lparr>recheck_days := 3\<rparr>) = Some x
         \<Longrightarrow> fst (process_url_decide c w u e) = Inl x"
  using assms by (auto simp add: process_url_decide_def Let_def card_of_def split: option.splits)

lemma extract_and_save_decide_upsert:
  assumes "ec_card e = Some ec" "is_expired ec"
    and "upsert_calls (snd (extract_and_save_decide c w u e)) \<noteq> upsert_calls w"
  shows "timing_type ec \<noteq> ONE_TIME
       \<and> upsert_calls (snd (extract_and_save_decide c w u e)) = upsert_calls w @ [ec\<lparr>recheck_days := 3\<rparr>]"
  using assms
  by (cases "timing_type ec")
     (auto simp add: extract_and_save_decide_def Let_def split: option.splits if_splits)

lemma process_url_decide_upsert:
  assumes "ec_card e = Some ec" "is_expired ec"
    and "upsert_calls (snd (process_url_decide c w u e)) \<noteq> upsert_calls w"
  shows "timing_type ec \<noteq> ONE_TIME
       \<and> upsert_calls (snd (process_url_decide c w u e)) = upsert_calls w @ [ec\<lparr>recheck_days := 3\<rparr>]"
  using assms
  by (cases "timing_type ec")
     (auto simp add: process_url_decide_def Let_def split: option.splits if_splits)

text \<open>How the two functions reduce to their decision parts.\<close>

lemma extract_and_save_reaches_decide:
  assumes "extractor_extract c (markdown_or_empty cr) (cr_url cr) = Inr e"
    and "cr_success cr" "100 \<le> length (markdown_or_empty cr)"
  shows "extract_and_save c w cr =
     (case extract_and_save_decide c (w\<lparr>extract_calls := extract_calls w @ [(markdown_or_empty cr, cr_url cr)]\<rparr>) (cr_url cr) e of
        (Inl x, w') \<Rightarrow> (Failed (take 100 (exc_str x)) (cr_url cr), w')
      | (Inr r, w') \<Rightarrow> (r, w'))"
  using assms by (simp add: extract_and_save_def extract_and_save_try_def Let_def)

lemma process_url_reaches_decide:
  assumes "crawler_crawl c url = Inr cr" "extractor_extract c (markdown_or_empty cr) url = Inr e"
    and "cr_success cr" "100 \<le> length (markdown_or_empty cr)"
  shows "process_url c w url =
     (case process_url_decide c (w\<lparr>extract_calls := extract_calls w @ [(markdown_or_empty cr, url)]\<rparr>) url e of
        (Inl x, w') \<Rightarrow> (Failed (take 100 (exc_str x)) url, w')
      | (Inr r, w') \<Rightarrow> (r, w'))"
  using assms by (simp add: process_url_def process_url_try_def Let_def)

lemma extract_and_save_before_decide:
  assumes "\<not> cr_success cr \<or> length (markdown_or_empty cr) < 100"
  shows "is_failed (fst (extract_and_save c w cr)) \<and> snd (extract_and_save c w cr) = w"
  using assms by (auto simp add: extract_and_save_def Let_def)

lemma process_url_before_decide:
  assumes "crawler_crawl c url = Inr cr" "\<not> cr_success cr \<or> length (markdown_or_empty cr) < 100"
  shows "is_failed (fst (process_url c w url)) \<and> snd (process_url c w url) = w"
  using assms by (auto simp add: process_url_def process_url_try_def Let_def)

lemma extract_and_save_snd:
  assumes "extractor_extract c (markdown_or_empty cr) (cr_url cr) = Inr e"
    and "cr_success cr" "100 \<le> length (markdown_or_empty cr)"
  shows "snd (extract_and_save c w cr) =
     snd (extract_and_save_decide c (w\<lparr>extract_calls := extract_calls w @ [(markdown_or_empty cr, cr_url cr)]\<rparr>) (cr_url cr) e)"
  by (simp add: extract_and_save_reaches_decide [OF assms] split: prod.splits sum.splits)

lemma extract_and_save_fst:
  assumes "extractor_extract c (markdown_or_empty cr) (cr_url cr) = Inr e"
    and "cr_success cr" "100 \<le> length (markdown_or_empty cr)"
  shows "fst (extract_and_save c w cr) =
     (case fst (extract_and_save_decide c (w\<lparr>extract_calls := extract_calls w @ [(markdown_or_empty cr, cr_url cr)]\<rparr>) (cr_url cr) e) of
        Inl x \<Rightarrow> Failed (take 100 (exc_str x)) (cr_url cr) | Inr r \<Rightarrow> r)"
  by (simp add: extract_and_save_reaches_decide [OF assms] split: prod.splits sum.splits)

lemma process_url_snd:
  assumes "crawler_crawl c url = Inr cr" "extractor_extract c (markdown_or_empty cr) url = Inr e"
    and "cr_success cr" "100 \<le> length (markdown_or_empty cr)"
  shows "snd (process_url c w url) =
     snd (process_url_decide c (w\<lparr>extract_calls := extract_calls w @ [(markdown_or_empty cr, url)]\<rparr>) url e)"
  by (simp add: process_url_reaches_decide [OF assms] split: prod.splits sum.splits)

lemma process_url_fst:
  assumes "crawler_crawl c url = Inr cr" "extractor_extract c (markdown_or_empty cr) url = Inr e"
    and "cr_success cr" "100 \<le> length (markdown_or_empty cr)"
  shows "fst (process_url c w url) =
     (case fst (process_url_decide c (w\<lparr>extract_calls := extract_calls w @ [(markdown_or_empty cr, url)]\<rparr>) url e) of
        Inl x \<Rightarrow> Failed (take 100 (exc_str x)) url | Inr r \<Rightarrow> r)"
  by (simp add: process_url_reaches_decide [OF assms] split: prod.splits sum.splits)

text \<open>
  Claim C2, as amended. For a record with \<open>is_expired\<close> true: if its timing is
  \<open>ONE_TIME\<close>, both paths reject it and hand nothing to the persistence sink. If its
  timing is \<open>ANNUAL\<close>, \<open>RECURRING\<close> or \<open>SEASONAL\<close> and the outcome passes the rules that
  come first (the crawl succeeded with at least 100 characters, the extraction
  succeeded, the confidence is at least 0.4, title and organization are not generic,
  the title holds no ranking marker of the path), the record is handed to the sink
  with \<open>recheck_days\<close> set to 3, and the result is a success when the upsert does not
  raise. The two never meet: whenever a record reaches the sink, it is not an expired
  one-time record, and it is the record with \<open>recheck_days = 3\<close>.
\<close>

theorem expired_records:
  assumes card: "ec_card e = Some ec" and expired: "is_expired ec"
    and crawl: "crawler_crawl c url = Inr cr" "cr_url cr = url"
    and hext: "extractor_extract c (markdown_or_empty cr) url = Inr e"
  shows
    "(timing_type ec = ONE_TIME
       \<longrightarrow> is_failed (fst (extract_and_save c w cr))
         \<and> upsert_calls (snd (extract_and_save c w cr)) = upsert_calls w
         \<and> is_failed (fst (process_url c w url))
         \<and> upsert_calls (snd (process_url c w url)) = upsert_calls w)
   \<and> (timing_type ec \<in> {ANNUAL, RECURRING, SEASONAL}
       \<and> cr_success cr \<and> 100 \<le> length (markdown_or_empty cr)
       \<and> ex_success e \<and> 2 / 5 \<le> confidence_or_zero (ex_confidence e)
       \<and> title ec \<noteq> ''Unknown Opportunity''
       \<and> organization ec \<notin> {Some ''Unknown'', None, Some ''''}
       \<and> \<not> list_ex (\<lambda>skip. str_in skip (lower (title ec))) [''best '', ''top '', ''ranking'', ''list of'']
       \<longrightarrow> upsert_calls (snd (extract_and_save c w cr)) = upsert_calls w @ [ec\<lparr>recheck_days := 3\<rparr>]
         \<and> (sync_upsert_opportunity c (ec\<lparr>recheck_days := 3\<rparr>) = None
              \<longrightarrow> fst (extract_and_save c w cr) = Succeeded url (card_of ec)))
   \<and> (timing_type ec \<in> {ANNUAL, RECURRING, SEASONAL}
       \<and> cr_success cr \<and> 100 \<le> length (markdown_or_empty cr)
       \<and> ex_success e \<and> 2 / 5 \<le> confidence_or_zero (ex_confidence e)
       \<and> title ec \<noteq> ''Unknown Opportunity''
       \<and> organization ec \<notin> {Some ''Unknown'', None, Some ''''}
       \<and> \<not> list_ex (\<lambda>skip. str_in skip (lower (title ec)))
               [''best '', ''top '', ''ranking'', ''list of'', ''94 '', ''100 '']
       \<longrightarrow> upsert_calls (snd (process_url c w url)) = upsert_calls w @ [ec\<lparr>recheck_days := 3\<rparr>]
         \<and> (sync_upsert_opportunity c (ec\<lparr>recheck_days := 3\<rparr>) = None
              \<longrightarrow> fst (process_url c w url) = Succeeded url (card_of ec)))
   \<and> (upsert_calls (snd (extract_and_save c w cr)) \<noteq> upsert_calls w
       \<longrightarrow> timing_type ec \<noteq> ONE_TIME
         \<and> upsert_calls (snd (extract_and_save c w cr)) = upsert_calls w @ [ec\<lparr>recheck_days := 3\<rparr>])
   \<and> (upsert_calls (snd (process_url c w url)) \<noteq> upsert_calls w
       \<longrightarrow> timing_type ec \<noteq> ONE_TIME
         \<and> upsert_calls (snd (process_url c w url)) = upsert_calls w @ [ec\<lparr>recheck_days := 3\<rparr>])"
proof -
  let ?w1 = "w\<lparr>extract_calls := extract_calls w @ [(markdown_or_empty cr, url)]\<rparr>"
  have extract': "extractor_extract c (markdown_or_empty cr) (cr_url cr) = Inr e"
    using hext crawl by simp
  show ?thesis
  proof (cases "cr_success cr \<and> 100 \<le> length (markdown_or_empty cr)")
    case False
    then have early: "\<not> cr_success cr \<or> length (markdown_or_empty cr) < 100" by auto
    have "snd (extract_and_save c w cr) = w" "is_failed (fst (extract_and_save c w cr))"
      "snd (process_url c w url) = w" "is_failed (fst (process_url c w url))"
      using extract_and_save_before_decide [OF early] process_url_before_decide [OF crawl(1) early]
      by simp_all
    with False show ?thesis by auto
  next
    case True
    then have ok: "cr_success cr" "100 \<le> length (markdown_or_empty cr)" by simp_all
    have sE: "snd (extract_and_save c w cr) = snd (extract_and_save_decide c ?w1 url e)"
      unfolding crawl(2) [symmetric] by (rule extract_and_save_snd [OF extract' ok])
    have fE: "fst (extract_and_save c w cr) =
        (case fst (extract_and_save_decide c ?w1 url e) of
           Inl x \<Rightarrow> Failed (take 100 (exc_str x)) url | Inr r \<Rightarrow> r)"
      unfolding crawl(2) [symmetric] by (rule extract_and_save_fst [OF extract' ok])
    have sP: "snd (process_url c w url) = snd (process_url_decide c ?w1 url e)"
      using process_url_snd [OF crawl(1) hext ok] by simp
    have fP: "fst (process_url c w url) =
        (case fst (process_url_decide c ?w1 url e) of
           Inl x \<Rightarrow> Failed (take 100 (exc_str x)) url | Inr r \<Rightarrow> r)"
      using process_url_fst [OF crawl(1) hext ok] by simp
    have one: "timing_type ec = ONE_TIME
       \<longrightarrow> is_failed (fst (extract_and_save c w cr))
         \<and> upsert_calls (snd (extract_and_save c w cr)) = upsert_calls w
         \<and> is_failed (fst (process_url c w url))
         \<and> upsert_calls (snd (process_url c w url)) = upsert_calls w"
    proof
      assume t: "timing_type ec = ONE_TIME"
      obtain m where m: "extract_and_save_decide c ?w1 url e = (Inr (Failed m url), ?w1)"
        using extract_and_save_decide_one_time [OF card expired t] by blast
      obtain m' where m': "process_url_decide c ?w1 url e = (Inr (Failed m' url), ?w1)"
        using process_url_decide_one_time [OF card expired t] by blast
      show "is_failed (fst (extract_and_save c w cr))
         \<and> upsert_calls (snd (extract_and_save c w cr)) = upsert_calls w
         \<and> is_failed (fst (process_url c w url))
         \<and> upsert_calls (snd (process_url c w url)) = upsert_calls w"
        by (simp add: sE fE sP fP m m')
    qed
    have recE: "timing_type ec \<in> {ANNUAL, RECURRING, SEASONAL}
       \<and> cr_success cr \<and> 100 \<le> length (markdown_or_empty cr)
       \<and> ex_success e \<and> 2 / 5 \<le> confidence_or_zero (ex_confidence e)
       \<and> title ec \<noteq> ''Unknown Opportunity''
       \<and> organization ec \<notin> {Some ''Unknown'', None, Some ''''}
       \<and> \<not> list_ex (\<lambda>skip. str_in skip (lower (title ec))) [''best '', ''top '', ''ranking'', ''list of'']
       \<longrightarrow> upsert_calls (snd (extract_and_save c w cr)) = upsert_calls w @ [ec\<lparr>recheck_days := 3\<rparr>]
         \<and> (sync_upsert_opportunity c (ec\<lparr>recheck_days := 3\<rparr>) = None
              \<longrightarrow> fst (extract_and_save c w cr) = Succeeded url (card_of ec))"
      using extract_and_save_decide_recurring [where c = c and w = ?w1 and u = url, OF card expired]
      by (simp add: sE fE)
    have recP: "timing_type ec \<in> {ANNUAL, RECURRING, SEASONAL}
       \<and> cr_success cr \<and> 100 \<le> length (markdown_or_empty cr)
       \<and> ex_success e \<and> 2 / 5 \<le> confidence_or_zero (ex_confidence e)
       \<and> title ec \<noteq> ''Unknown Opportunity''
       \<and> organization ec \<notin> {Some ''Unknown'', None, Some ''''}
       \<and> \<not> list_ex (\<lambda>skip. str_in skip (lower (title ec)))
               [''best '', ''top '', ''ranking'', ''list of'', ''94 '', ''100 '']
       \<longrightarrow> upsert_calls (snd (process_url c w url)) = upsert_calls w @ [ec\<lparr>recheck_days := 3\<rparr>]
         \<and> (sync_upsert_opportunity c (ec\<lparr>recheck_days := 3\<rparr>) = None
              \<longrightarrow> fst (process_url c w url) = Succeeded url (card_of ec))"
      using process_url_decide_recurring [where c = c and w = ?w1 and u = url, OF card expired]
      by (simp add: sP fP)
    have exE: "upsert_calls (snd (extract_and_save c w cr)) \<noteq> upsert_calls w
       \<longrightarrow> timing_type ec \<noteq> ONE_TIME
         \<and> upsert_calls (snd (extract_and_save c w cr)) = upsert_calls w @ [ec\<lparr>recheck_days := 3\<rparr>]"
      using extract_and_save_decide_upsert [where c = c and w = ?w1 and u = url, OF card expired] by (simp add: sE)
    have exP: "upsert_calls (snd (process_url c w url)) \<noteq> upsert_calls w
       \<longrightarrow> timing_type ec \<noteq> ONE_TIME
         \<and> upsert_calls (snd (process_url c w url)) = upsert_calls w @ [ec\<lparr>recheck_days := 3\<rparr>]"
      using process_url_decide_upsert [where c = c and w = ?w1 and u = url, OF card expired] by (simp add: sP)
    from one recE recP exE exP show ?thesis by blast
  qed
qed

text \<open>The theorem at an expired one-time record and at an expired seasonal record.\<close>

theorem expired_records_witness:
  "is_failed (fst (extract_and_save (collaborators_returning (extraction_of expired_one_time_card (Some (9 / 10))))
                     empty_world (crawl_ok example_url)))
   \<and> upsert_calls (snd (extract_and_save (collaborators_returning (extraction_of expired_one_time_card (Some (9 / 10))))
                     empty_world (crawl_ok example_url))) = upsert_calls empty_world
   \<and> upsert_calls (snd (extract_and_save (collaborators_returning (extraction_of expired_seasonal_card (Some (9 / 10))))
                     empty_world (crawl_ok example_url)))
       = upsert_calls empty_world @ [expired_seasonal_card\<lparr>recheck_days := 3\<rparr>]
   \<and> fst (extract_and_save (collaborators_returning (extraction_of expired_seasonal_card (Some (9 / 10))))
                     empty_world (crawl_ok example_url))
       = Succeeded example_url (card_of expired_seasonal_card)
   \<and> upsert_calls (snd (process_url (collaborators_returning (extraction_of expired_seasonal_card (Some (9 / 10))))
                     empty_world example_url))
       = upsert_calls empty_world @ [expired_seasonal_card\<lparr>recheck_days := 3\<rparr>]"
proof -
  let ?e1 = "extraction_of expired_one_time_card (Some (9 / 10))"
  let ?e2 = "extraction_of expired_seasonal_card (Some (9 / 10))"
  let ?c1 = "collaborators_returning ?e1"
  let ?c2 = "collaborators_returning ?e2"
  have one: "timing_type expired_one_time_card = ONE_TIME"
    by (simp add: expired_one_time_card_def good_card_def)
  have first: "is_failed (fst (extract_and_save ?c1 empty_world (crawl_ok example_url)))
      \<and> upsert_calls (snd (extract_and_save ?c1 empty_world (crawl_ok example_url))) = upsert_calls empty_world"
    using one expired_records [of ?e1 expired_one_time_card ?c1 example_url "crawl_ok example_url" empty_world]
    by (simp add: extraction_of_def expired_one_time_card_def good_card_def
        collaborators_returning_def crawl_ok_def)
  have rules: "timing_type expired_seasonal_card \<in> {ANNUAL, RECURRING, SEASONAL}
       \<and> cr_success (crawl_ok example_url) \<and> 100 \<le> length (markdown_or_empty (crawl_ok example_url))
       \<and> ex_success ?e2 \<and> 2 / 5 \<le> confidence_or_zero (ex_confidence ?e2)
       \<and> title expired_seasonal_card \<noteq> ''Unknown Opportunity''
       \<and> organization expired_seasonal_card \<notin> {Some ''Unknown'', None, Some ''''}
       \<and> \<not> list_ex (\<lambda>skip. str_in skip (lower (title expired_seasonal_card)))
               [''best '', ''top '', ''ranking'', ''list of'', ''94 '', ''100 '']
       \<and> \<not> list_ex (\<lambda>skip. str_in skip (lower (title expired_seasonal_card)))
               [''best '', ''top '', ''ranking'', ''list of'']"
    by code_simp
  have upsert: "sync_upsert_opportunity ?c2 (expired_seasonal_card\<lparr>recheck_days := 3\<rparr>) = None"
    by (simp add: collaborators_returning_def)
  have hyps: "ec_card ?e2 = Some expired_seasonal_card" "is_expired expired_seasonal_card"
    "crawler_crawl ?c2 example_url = Inr (crawl_ok example_url)"
    "cr_url (crawl_ok example_url) = example_url"
    "extractor_extract ?c2 (markdown_or_empty (crawl_ok example_url)) example_url = Inr ?e2"
    by (simp_all add: extraction_of_def expired_seasonal_card_def good_card_def
        collaborators_returning_def crawl_ok_def)
  from expired_records [OF hyps, of empty_world] rules upsert first
  show ?thesis by blast
qed

text \<open>
  Claim C2 as stated fails: an expired \<open>ANNUAL\<close> record titled
  "Top 10 Summer Programs" is not accepted; the ranking rule, which comes first,
  rejects it, and nothing reaches the sink.
\<close>

theorem expired_annual_ranking_article_rejected:
  "is_expired ranking_expired_card \<and> timing_type ranking_expired_card = ANNUAL
   \<and> extract_and_save (collaborators_returning (extraction_of ranking_expired_card (Some (9 / 10))))
        empty_world (crawl_ok example_url)
     = (Failed ''Ranking article: Top 10 Summer Programs'' example_url,
        empty_world\<lparr>extract_calls := [(long_markdown, example_url)]\<rparr>)"
  by code_simp

text \<open>Apart from the two numeric markers the decisions of the two paths agree: same
  result, same record handed to the sink.\<close>

lemma paths_agree_without_numeric_markers:
  assumes "\<And>ec. ec_card e = Some ec
             \<Longrightarrow> \<not> str_in ''94 '' (lower (title ec)) \<and> \<not> str_in ''100 '' (lower (title ec))"
  shows "fst (process_url_decide c w u e) = fst (extract_and_save_decide c w u e)
       \<and> upsert_calls (snd (process_url_decide c w u e)) = upsert_calls (snd (extract_and_save_decide c w u e))"
  using assms
  by (auto simp add: process_url_decide_def extract_and_save_decide_def Let_def split: option.splits)

text \<open>
  Claim C3 at the input where the two paths part: for a record titled
  "94 Summer Programs for Teens", extracted with confidence 0.9, \<open>process_url\<close> rejects
  with the reason "Ranking article: ..." and hands nothing to the sink, while
  \<open>extract_and_save\<close> accepts and upserts the record. The marker list of \<open>process_url\<close>
  holds \<open>'94 '\<close> and \<open>'100 '\<close>; the list of \<open>extract_and_save\<close> does not.
\<close>

theorem paths_disagree_on_numeric_marker:
  "fst (process_url (collaborators_returning (extraction_of numeric_title_card (Some (9 / 10))))
          empty_world example_url)
     = Failed ''Ranking article: 94 Summer Programs for Teens'' example_url
   \<and> upsert_calls (snd (process_url (collaborators_returning (extraction_of numeric_title_card (Some (9 / 10))))
          empty_world example_url)) = []
   \<and> fst (extract_and_save (collaborators_returning (extraction_of numeric_title_card (Some (9 / 10))))
          empty_world (crawl_ok example_url))
     = Succeeded example_url (card_of numeric_title_card)
   \<and> upsert_calls (snd (extract_and_save (collaborators_returning (extraction_of numeric_title_card (Some (9 / 10))))
          empty_world (crawl_ok example_url))) = [numeric_title_card]"
  by code_simp

section \<open>Short content\<close>

lemma str_nat_40: "str_nat 40 = ''40''"
  by (simp add: str_nat.simps digit_char_def)

lemma emit_results_shift:
  "emit_results rs n = (fst (emit_results rs 0), n + snd (emit_results rs 0))"
proof (induction rs arbitrary: n)
  case Nil
  show ?case by simp
next
  case (Cons r rs)
  show ?case
  proof (cases r)
    case (Failed m u)
    then show ?thesis
      using Cons.IH [of n] by (auto split: prod.splits)
  next
    case (Succeeded u cd)
    then show ?thesis
      using Cons.IH [of "n + 1"] Cons.IH [of 1] by (auto split: prod.splits)
  qed
qed

lemma emit_results_events_counter: "fst (emit_results rs n) = fst (emit_results rs 0)"
  using emit_results_shift [of rs n] by simp

lemma emit_results_events_Cons:
  "fst (emit_results (r # rs) n) = fst (emit_results [r] 0) @ fst (emit_results rs 0)"
proof (cases r)
  case (Failed m u)
  then show ?thesis
    using emit_results_events_counter [of rs n] by (auto split: prod.splits)
next
  case (Succeeded u cd)
  then show ?thesis
    using emit_results_events_counter [of rs "n + 1"] by (auto split: prod.splits)
qed

lemma emit_results_events_concat:
  "fst (emit_results rs n) = concat (map (\<lambda>r. fst (emit_results [r] 0)) rs)"
proof (induction rs arbitrary: n)
  case Nil
  show ?case by simp
next
  case (Cons r rs)
  show ?case
    using emit_results_events_Cons [of r rs n] Cons.IH [of 0] by simp
qed

text \<open>
  Claim C7. When the crawl succeeded and the rendered text has fewer than 100
  characters, both paths stop before the extraction: the result is the error
  "Content too short: N chars" with N the length, and the world is returned as it
  was, so the extraction agent has not been called. The loop that emits the results
  writes exactly one \<open>error\<close> event for it, whose message holds that text, and the
  text is not that of a crawl failure.
\<close>

theorem short_content_stops_before_extraction:
  assumes "cr_success cr" and "length (markdown_or_empty cr) < 100"
  shows "extract_and_save c w cr
           = (Failed (''Content too short: '' @ str_nat (length (markdown_or_empty cr)) @ '' chars'') (cr_url cr), w)
       \<and> extract_calls (snd (extract_and_save c w cr)) = extract_calls w
       \<and> fst (emit_results [fst (extract_and_save c w cr)] n)
           = [EvError (cr_url cr @ '': Content too short: '' @ str_nat (length (markdown_or_empty cr)) @ '' chars'')]
       \<and> (crawler_crawl c url = Inr cr \<longrightarrow>
            process_url c w url
              = (Failed (''Content too short: '' @ str_nat (length (markdown_or_empty cr)) @ '' chars'') url, w))
       \<and> \<not> prefix ''Crawl failed'' (''Content too short: '' @ str_nat (length (markdown_or_empty cr)) @ '' chars'')"
  using assms
  by (simp add: extract_and_save_def process_url_def process_url_try_def Let_def)

text \<open>The theorem at a crawl that returned 40 characters.\<close>

theorem short_content_witness:
  "cr_success short_crawl \<and> length (markdown_or_empty short_crawl) < 100
   \<and> extract_and_save short_collaborators empty_world short_crawl
       = (Failed ''Content too short: 40 chars'' example_url, empty_world)
   \<and> fst (emit_results [fst (extract_and_save short_collaborators empty_world short_crawl)] 0)
       = [EvError (example_url @ '': Content too short: 40 chars'')]
   \<and> process_url short_collaborators empty_world example_url
       = (Failed ''Content too short: 40 chars'' example_url, empty_world)"
proof -
  have h: "cr_success short_crawl" "length (markdown_or_empty short_crawl) < 100"
    by (simp_all add: short_crawl_def markdown_or_empty_def)
  have len: "length (markdown_or_empty short_crawl) = 40"
    by (simp add: short_crawl_def markdown_or_empty_def)
  have cr: "crawler_crawl short_collaborators example_url = Inr short_crawl"
    by (simp add: short_collaborators_def)
  have u: "cr_url short_crawl = example_url"
    by (simp add: short_crawl_def)
  show ?thesis
    using h cr short_content_stops_before_extraction [OF h, of short_collaborators empty_world 0 example_url]
    by (simp add: len u str_nat_40)
qed

section \<open>The search client\<close>

lemma for_append_all_Inr:
  assumes "\<And>x. x \<in> set xs \<Longrightarrow> f x = Inr (g x)"
  shows "for_append f xs = Inr (concat (map g xs))"
  using assms by (induction xs) simp_all

lemma result_of_item_obj:
  "is_obj item \<Longrightarrow> \<exists>r. result_of_item item = Inr [r]"
  by (cases item) (simp_all add: result_of_item_def dict_get_def)

lemma result_of_url_info_obj:
  "is_obj infobox \<Longrightarrow> is_obj url_info \<Longrightarrow> \<exists>r. result_of_url_info self infobox url_info = Inr [r]"
  by (cases infobox; cases url_info) (simp_all add: result_of_url_info_def dict_get_def)

lemma for_append_singletons:
  assumes "\<And>x. x \<in> set xs \<Longrightarrow> \<exists>r. f x = Inr [r]"
  shows "\<exists>rs. for_append f xs = Inr rs \<and> length rs = length xs"
  using assms
proof (induction xs)
  case Nil
  show ?case by simp
next
  case (Cons x xs)
  obtain r where r: "f x = Inr [r]" using Cons.prems by auto
  obtain rs where rs: "for_append f xs = Inr rs" "length rs = length xs"
    using Cons.IH Cons.prems by auto
  show ?case by (simp add: r rs)
qed

lemma length_slice_to_nonneg: "0 \<le> k \<Longrightarrow> length (slice_to xs k) = min (nat k) (length xs)"
  by (simp add: slice_to_def min_def)

lemma results_of_infobox_length:
  assumes "infobox_urls infobox = Some urls"
  shows "\<exists>rs. results_of_infobox self infobox = Inr rs \<and> length rs = min 3 (length urls)"
proof -
  obtain kvs where kvs: "infobox = JObj kvs"
    using assms by (cases infobox) simp_all
  have m: "map_of kvs ''urls'' = Some (JArr urls)" and objs: "list_all is_obj urls"
    using assms kvs by (auto split: option.splits json.splits if_splits)
  have "\<And>x. x \<in> set (slice_to urls 3) \<Longrightarrow> \<exists>r. result_of_url_info self infobox x = Inr [r]"
  proof -
    fix x assume "x \<in> set (slice_to urls 3)"
    then have "x \<in> set urls" by (auto simp add: slice_to_def dest: in_set_takeD)
    then have "is_obj x" using objs by (simp add: list_all_iff)
    then show "\<exists>r. result_of_url_info self infobox x = Inr [r]"
      using result_of_url_info_obj [of infobox x self] kvs by simp
  qed
  then obtain rs where "for_append (result_of_url_info self infobox) (slice_to urls 3) = Inr rs"
    "length rs = length (slice_to urls 3)"
    using for_append_singletons [of "slice_to urls 3" "result_of_url_info self infobox"] by blast
  then show ?thesis
    by (simp add: results_of_infobox_def kvs dict_get_def m json_slice_to_def json_iter_def
        length_slice_to_nonneg)
qed

lemma for_append_lengths:
  assumes "\<And>x. x \<in> set xs \<Longrightarrow> \<exists>rs. f x = Inr rs \<and> length rs = n x"
  shows "\<exists>rs. for_append f xs = Inr rs \<and> length rs = sum_list (map n xs)"
  using assms
proof (induction xs)
  case Nil
  show ?case by simp
next
  case (Cons x xs)
  obtain r where r: "f x = Inr r" "length r = n x" using Cons.prems by auto
  obtain rs where rs: "for_append f xs = Inr rs" "length rs = sum_list (map n xs)"
    using Cons.IH Cons.prems by auto
  show ?case by (simp add: r rs)
qed

lemma search_wiki_client_length:
  "\<not> isl (search wiki_client ''robotics'' None None None 1)
   \<and> length (projr (search wiki_client ''robotics'' None None None 1)) = 4"
  by code_simp

text \<open>
  Claim C10. \<open>search\<close> caps the regular results only. For a payload of the expected
  shape (a \<open>dict\<close> whose \<open>results\<close> is a list of \<open>dict\<close>s and whose \<open>infoboxes\<close> is a list
  of \<open>dict\<close>s, each with a list of \<open>dict\<close>s under \<open>urls\<close>) it returns the first
  \<open>max_results\<close> regular results followed by up to three results for every infobox,
  so the length is the sum of the two. With \<open>max_results = 1\<close>, two regular results
  and one infobox of four URLs the list has 4 entries, more than 1.
\<close>

theorem search_exceeds_max_results:
  "(session_get self (base_url self @ ''/search'') (search_params query categories engines excluded_engines)
        = Inr response
      \<and> status response = 200 \<and> response_json response = Inr (JObj kvs)
      \<and> map_of kvs ''results'' = Some (JArr items) \<and> list_all is_obj items
      \<and> map_of kvs ''infoboxes'' = Some (JArr infoboxes)
      \<and> (\<forall>ib \<in> set infoboxes. infobox_urls ib \<noteq> None)
    \<longrightarrow> (\<exists>rs. search self query categories engines excluded_engines max_results = Inr rs
          \<and> length rs = length (slice_to items max_results)
               + sum_list (map (\<lambda>ib. case infobox_urls ib of None \<Rightarrow> 0
                                      | Some urls \<Rightarrow> min 3 (length urls)) infoboxes)))
   \<and> (\<exists>rs. search wiki_client ''robotics'' None None None 1 = Inr rs \<and> 1 < int (length rs))"
proof (intro conjI impI)
  assume h: "session_get self (base_url self @ ''/search'') (search_params query categories engines excluded_engines)
        = Inr response
      \<and> status response = 200 \<and> response_json response = Inr (JObj kvs)
      \<and> map_of kvs ''results'' = Some (JArr items) \<and> list_all is_obj items
      \<and> map_of kvs ''infoboxes'' = Some (JArr infoboxes)
      \<and> (\<forall>ib \<in> set infoboxes. infobox_urls ib \<noteq> None)"
  let ?n = "\<lambda>ib. case infobox_urls ib of None \<Rightarrow> 0 | Some urls \<Rightarrow> min 3 (length urls)"
  have "\<And>x. x \<in> set (slice_to items max_results) \<Longrightarrow> \<exists>r. result_of_item x = Inr [r]"
  proof -
    fix x assume "x \<in> set (slice_to items max_results)"
    then have "x \<in> set items" by (auto simp add: slice_to_def split: if_splits dest: in_set_takeD)
    then show "\<exists>r. result_of_item x = Inr [r]"
      using h result_of_item_obj by (simp add: list_all_iff)
  qed
  then obtain regular where regular:
    "for_append result_of_item (slice_to items max_results) = Inr regular"
    "length regular = length (slice_to items max_results)"
    using for_append_singletons [of "slice_to items max_results" result_of_item] by blast
  have "\<And>ib. ib \<in> set infoboxes \<Longrightarrow> \<exists>rs. results_of_infobox self ib = Inr rs \<and> length rs = ?n ib"
  proof -
    fix ib assume "ib \<in> set infoboxes"
    then obtain urls where "infobox_urls ib = Some urls" using h by auto
    then show "\<exists>rs. results_of_infobox self ib = Inr rs \<and> length rs = ?n ib"
      using results_of_infobox_length [of ib urls self] by simp
  qed
  then obtain extra where extra:
    "for_append (results_of_infobox self) infoboxes = Inr extra"
    "length extra = sum_list (map ?n infoboxes)"
    using for_append_lengths [of infoboxes "results_of_infobox self" ?n] by blast
  have "search_try self (search_params query categories engines excluded_engines) max_results
          = Inr (regular @ extra)"
    using h by (simp add: search_try_def dict_get_def json_slice_to_def json_iter_def regular extra)
  then show "\<exists>rs. search self query categories engines excluded_engines max_results = Inr rs
          \<and> length rs = length (slice_to items max_results) + sum_list (map ?n infoboxes)"
    by (simp add: search_def regular extra)
next
  show "\<exists>rs. search wiki_client ''robotics'' None None None 1 = Inr rs \<and> 1 < int (length rs)"
    using search_wiki_client_length
    by (cases "search wiki_client ''robotics'' None None None 1") simp_all
qed

text \<open>The theorem at the payload with two regular results and one infobox of four
  URLs, asked for one result.\<close>

theorem search_exceeds_max_results_witness:
  "\<exists>rs. search wiki_client ''robotics'' None None None 1 = Inr rs \<and> length rs = 1 + 3"
proof -
  let ?items = "[JObj [(''url'', JStr ''https://a.example/one''), (''title'', JStr ''One'')],
                 JObj [(''url'', JStr ''https://a.example/two''), (''title'', JStr ''Two'')]]"
  let ?ib = "JObj [(''infobox'', JStr ''MIT''),
                        (''urls'',
                         JArr [JObj [(''url'', JStr ''https://mit.edu''), (''title'', JStr ''Home'')],
                               JObj [(''url'', JStr ''https://mit.edu/admissions'')],
                               JObj [(''url'', JStr ''https://mit.edu/research'')],
                               JObj [(''url'', JStr ''https://mit.edu/news'')]])]"
  let ?kvs = "[(''results'', JArr ?items), (''infoboxes'', JArr [?ib])]"
  have h: "session_get wiki_client (base_url wiki_client @ ''/search'') (search_params ''robotics'' None None None)
        = Inr \<lparr>status = 200, response_json = Inr wiki_payload\<rparr>
      \<and> status \<lparr>status = 200, response_json = Inr wiki_payload\<rparr> = 200
      \<and> response_json \<lparr>status = 200, response_json = Inr wiki_payload\<rparr> = Inr (JObj ?kvs)
      \<and> map_of ?kvs ''results'' = Some (JArr ?items) \<and> list_all is_obj ?items
      \<and> map_of ?kvs ''infoboxes'' = Some (JArr [?ib])
      \<and> (\<forall>ib \<in> set [?ib]. infobox_urls ib \<noteq> None)"
    by (simp add: wiki_client_def wiki_payload_def)
  show ?thesis
    using h search_exceeds_max_results [of wiki_client "''robotics''" None None None
        "\<lparr>status = 200, response_json = Inr wiki_payload\<rparr>" ?kvs ?items "[?ib]" 1]
    by (auto simp add: slice_to_def eval_nat_numeral)
qed

lemma search_queries_robotics:
  "search_queries 2026 ''robotics'' =
     [''high school robotics summer program 2026'',
      ''robotics internship for high school students'',
      ''robotics research opportunities for high schoolers'',
      ''robotics competitions high school 2026'',
      ''robotics volunteer work for teens'']"
  by code_simp

lemma search_total:
  "\<exists>rs. search self query categories engines excluded_engines max_results = Inr rs"
proof (cases "search_try self (search_params query categories engines excluded_engines) max_results")
  case (Inl e)
  then show ?thesis by (cases e) (simp_all add: search_def)
next
  case (Inr rs)
  then show ?thesis by (simp add: search_def)
qed

lemma search_exception_empty:
  assumes "search_try self (search_params query categories engines excluded_engines) max_results = Inl e"
  shows "search self query categories engines excluded_engines max_results = Inr []"
  using assms by (cases e) (simp_all add: search_def)

lemma search_try_transport_error:
  "session_get self (base_url self @ ''/search'') params = Inl e \<Longrightarrow> search_try self params k = Inl e"
  by (simp add: search_try_def)

lemma search_try_bad_json:
  "session_get self (base_url self @ ''/search'') params = Inr response \<Longrightarrow> status response = 200
   \<Longrightarrow> response_json response = Inl e \<Longrightarrow> search_try self params k = Inl e"
  by (simp add: search_try_def)

lemma search_try_not_a_dict:
  "session_get self (base_url self @ ''/search'') params = Inr response \<Longrightarrow> status response = 200
   \<Longrightarrow> response_json response = Inr data \<Longrightarrow> \<not> is_obj data
   \<Longrightarrow> search_try self params k = Inl (OtherException ''AttributeError'')"
  by (cases data) (simp_all add: search_try_def dict_get_def)

lemma gather_do_search:
  "gather (map (\<lambda>q. snd (do_search env q)) qs)
     = Inr (map (\<lambda>q. case search_client_search env q 10 of Inl e \<Rightarrow> [] | Inr rs \<Rightarrow> rs) qs)"
  by (induction qs) (simp_all add: do_search_def split: sum.splits)

text \<open>
  Claim C6, as amended. \<open>search\<close> always returns a list: whatever is raised inside its
  \<open>try\<close> block (by the request, by the decoding of the body, by a payload whose shape
  makes the processing raise) ends in one of the two handlers, which return the
  empty list, and so does a status other than 200. \<open>do_search\<close> always returns a list
  too, the empty one when the client raises. So \<open>asyncio.gather\<close> over the queries
  never raises, and the entry of each query is decided by the answer to that query
  alone. The values of the fields of a result are not checked: an item that is a
  \<open>dict\<close> becomes a result with whatever it holds under \<open>url\<close>.
\<close>

theorem search_failures_are_local:
  "(\<exists>rs. search self query categories engines excluded_engines max_results = Inr rs)
   \<and> (search_try self (search_params query categories engines excluded_engines) max_results = Inl e
        \<longrightarrow> search self query categories engines excluded_engines max_results = Inr [])
   \<and> (session_get self (base_url self @ ''/search'') (search_params query categories engines excluded_engines) = Inl e
        \<longrightarrow> search self query categories engines excluded_engines max_results = Inr [])
   \<and> (session_get self (base_url self @ ''/search'') (search_params query categories engines excluded_engines) = Inr response
        \<and> status response \<noteq> 200
        \<longrightarrow> search self query categories engines excluded_engines max_results = Inr [])
   \<and> (session_get self (base_url self @ ''/search'') (search_params query categories engines excluded_engines) = Inr response
        \<and> status response = 200 \<and> response_json response = Inl e
        \<longrightarrow> search self query categories engines excluded_engines max_results = Inr [])
   \<and> (session_get self (base_url self @ ''/search'') (search_params query categories engines excluded_engines) = Inr response
        \<and> status response = 200 \<and> response_json response = Inr data \<and> \<not> is_obj data
        \<longrightarrow> search self query categories engines excluded_engines max_results = Inr [])
   \<and> (\<exists>rs. snd (do_search env search_query) = Inr rs)
   \<and> (search_client_search env search_query 10 = Inl e \<longrightarrow> snd (do_search env search_query) = Inr [])
   \<and> gather (map (\<lambda>q. snd (do_search env q)) qs)
        = Inr (map (\<lambda>q. case search_client_search env q 10 of Inl e \<Rightarrow> [] | Inr rs \<Rightarrow> rs) qs)
   \<and> result_of_item (JObj kvs)
        = Inr [\<lparr>sr_url = (case map_of kvs ''url'' of None \<Rightarrow> JStr '''' | Some v \<Rightarrow> v),
                sr_title = (case map_of kvs ''title'' of None \<Rightarrow> JStr '''' | Some v \<Rightarrow> v),
                sr_snippet = (case map_of kvs ''content'' of None \<Rightarrow> JStr '''' | Some v \<Rightarrow> v),
                sr_engine = (case map_of kvs ''engine'' of None \<Rightarrow> JStr ''unknown'' | Some v \<Rightarrow> v),
                sr_score = (case map_of kvs ''score'' of None \<Rightarrow> JNum 0 | Some v \<Rightarrow> v)\<rparr>]"
proof (intro conjI impI)
  show "result_of_item (JObj kvs)
        = Inr [\<lparr>sr_url = (case map_of kvs ''url'' of None \<Rightarrow> JStr '''' | Some v \<Rightarrow> v),
                sr_title = (case map_of kvs ''title'' of None \<Rightarrow> JStr '''' | Some v \<Rightarrow> v),
                sr_snippet = (case map_of kvs ''content'' of None \<Rightarrow> JStr '''' | Some v \<Rightarrow> v),
                sr_engine = (case map_of kvs ''engine'' of None \<Rightarrow> JStr ''unknown'' | Some v \<Rightarrow> v),
                sr_score = (case map_of kvs ''score'' of None \<Rightarrow> JNum 0 | Some v \<Rightarrow> v)\<rparr>]"
    by (simp add: result_of_item_def dict_get_def)
  show "\<exists>rs. search self query categories engines excluded_engines max_results = Inr rs"
    by (rule search_total)
  show "gather (map (\<lambda>q. snd (do_search env q)) qs)
        = Inr (map (\<lambda>q. case search_client_search env q 10 of Inl e \<Rightarrow> [] | Inr rs \<Rightarrow> rs) qs)"
    by (rule gather_do_search)
  show "\<exists>rs. snd (do_search env search_query) = Inr rs"
    by (simp add: do_search_def split: sum.splits)
next
  assume "search_try self (search_params query categories engines excluded_engines) max_results = Inl e"
  then show "search self query categories engines excluded_engines max_results = Inr []"
    by (rule search_exception_empty)
next
  assume "session_get self (base_url self @ ''/search'') (search_params query categories engines excluded_engines) = Inl e"
  then show "search self query categories engines excluded_engines max_results = Inr []"
    using search_exception_empty search_try_transport_error by blast
next
  assume "session_get self (base_url self @ ''/search'') (search_params query categories engines excluded_engines) = Inr response
        \<and> status response \<noteq> 200"
  then show "search self query categories engines excluded_engines max_results = Inr []"
    by (simp add: search_def search_try_def)
next
  assume "session_get self (base_url self @ ''/search'') (search_params query categories engines excluded_engines) = Inr response
        \<and> status response = 200 \<and> response_json response = Inl e"
  then show "search self query categories engines excluded_engines max_results = Inr []"
    using search_exception_empty search_try_bad_json by blast
next
  assume "session_get self (base_url self @ ''/search'') (search_params query categories engines excluded_engines) = Inr response
        \<and> status response = 200 \<and> response_json response = Inr data \<and> \<not> is_obj data"
  then show "search self query categories engines excluded_engines max_results = Inr []"
    using search_exception_empty search_try_not_a_dict by blast
next
  assume "search_client_search env search_query 10 = Inl e"
  then show "snd (do_search env search_query) = Inr []"
    by (simp add: do_search_def)
qed

lemma search_wiki_client_any_query:
  "search wiki_client q None None None 10 = search wiki_client ''robotics'' None None None 10"
  by (simp add: search_def search_try_def wiki_client_def)

lemma search_wiki_client_results:
  "\<not> isl (search wiki_client ''robotics'' None None None 10) \<and> length wiki_results = 5"
  unfolding wiki_results_def by code_simp

lemma search_wiki_client_value: "search wiki_client q None None None 10 = Inr wiki_results"
  using search_wiki_client_results
  by (cases "search wiki_client ''robotics'' None None None 10")
     (simp_all add: search_wiki_client_any_query [of q] wiki_results_def)

text \<open>The theorem at a client that cannot connect, at one that answers 429, at one
  whose payload lists a string among the results, and at a batch of five queries of
  which the second raises while the four others each bring five results.\<close>

theorem search_failures_are_local_witness:
  "search offline_client ''robotics'' None None None 10 = Inr []
   \<and> search busy_client ''robotics'' None None None 10 = Inr []
   \<and> search garbled_client ''robotics'' None None None 10 = Inr []
   \<and> snd (do_search flaky_env ''robotics internship for high school students'') = Inr []
   \<and> gather (map (\<lambda>q. snd (do_search flaky_env q)) (search_queries 2026 ''robotics''))
        = Inr [wiki_results, [], wiki_results, wiki_results, wiki_results]
   \<and> length wiki_results = 5"
proof -
  have a: "search offline_client ''robotics'' None None None 10 = Inr []"
    using search_failures_are_local [of offline_client "''robotics''" None None None 10
        "ClientError ''Cannot connect to host''"]
    by (simp add: offline_client_def)
  have b: "search busy_client ''robotics'' None None None 10 = Inr []"
    using search_failures_are_local [of busy_client "''robotics''" None None None 10 _
        "\<lparr>status = 429, response_json = Inr wiki_payload\<rparr>"]
    by (simp add: busy_client_def)
  have "search_try garbled_client (search_params ''robotics'' None None None) 10
          = Inl (OtherException ''AttributeError'')"
    by (simp add: search_try_def garbled_client_def dict_get_def json_slice_to_def json_iter_def
        slice_to_def result_of_item_def)
  then have c: "search garbled_client ''robotics'' None None None 10 = Inr []"
    using search_failures_are_local [of garbled_client "''robotics''" None None None 10
        "OtherException ''AttributeError''"]
    by simp
  note inst = search_failures_are_local [where self = busy_client and query = "''robotics''"
        and categories = None and engines = None and excluded_engines = None and max_results = 10
        and e = "OtherException ''boom''" and response = "\<lparr>status = 429, response_json = Inr wiki_payload\<rparr>"
        and data = JNull and env = flaky_env
        and search_query = "''robotics internship for high school students''"
        and qs = "search_queries 2026 ''robotics''" and kvs = "[]"]
  have raised: "search_client_search flaky_env ''robotics internship for high school students'' 10
                  = Inl (OtherException ''boom'')"
    by (simp add: flaky_env_def)
  have d: "snd (do_search flaky_env ''robotics internship for high school students'') = Inr []"
    using inst raised by blast
  have g: "gather (map (\<lambda>q. snd (do_search flaky_env q)) (search_queries 2026 ''robotics''))
        = Inr (map (\<lambda>q. case search_client_search flaky_env q 10 of Inl e \<Rightarrow> [] | Inr rs \<Rightarrow> rs)
                 (search_queries 2026 ''robotics''))"
    using inst by (elim conjE)
  have e: "gather (map (\<lambda>q. snd (do_search flaky_env q)) (search_queries 2026 ''robotics''))
        = Inr [wiki_results, [], wiki_results, wiki_results, wiki_results]"
    unfolding g by (simp add: search_queries_robotics flaky_env_def search_wiki_client_value)
  from a b c d e search_wiki_client_results show ?thesis by blast
qed

section \<open>Collecting the URLs\<close>

lemma str_in_iff_sublist: "str_in p s = sublist p s"
  by (induction s) (simp_all add: sublist_Cons_right)

lemma lower_append: "lower (xs @ ys) = lower xs @ lower ys"
  by (simp add: lower_def)

lemma sublist_lower: "sublist v u \<Longrightarrow> sublist (lower v) (lower u)"
proof -
  assume "sublist v u"
  then obtain ps ss where "u = ps @ v @ ss" by (auto simp add: sublist_def)
  then have "lower u = lower ps @ lower v @ lower ss" by (simp add: lower_append)
  then show ?thesis unfolding sublist_def by blast
qed

lemma denylisted_case_insensitive:
  assumes "p \<in> set skip_patterns" "lower v = p" "sublist v u"
  shows "denylisted u"
  using assms sublist_lower [of v u]
  by (auto simp add: denylisted_def list_ex_iff str_in_iff_sublist)

lemma found_urls_append: "found_urls (xs @ ys) = found_urls xs @ found_urls ys"
  by (induction xs rule: found_urls.induct) simp_all

lemma analyzing_urls_append: "analyzing_urls (xs @ ys) = analyzing_urls xs @ analyzing_urls ys"
  by (induction xs rule: analyzing_urls.induct) simp_all

lemma collect_urls_Cons_str:
  "sr_url r = JStr u \<Longrightarrow>
   collect_urls (r # rs) acc =
     (if denylisted u \<or> u \<in> set acc then collect_urls rs acc
      else (case collect_urls rs (acc @ [u]) of
              (urls, evs, exc) \<Rightarrow>
                (urls, EvFound u (if py_truthy (sr_title r) then sr_title r else JStr ''Web Result'') # evs, exc)))"
  by (simp add: denylisted_def Let_def)

lemma collect_urls_Cons_other:
  "\<not> is_str (sr_url r) \<Longrightarrow> collect_urls (r # rs) acc = (acc, [], Some (OtherException ''AttributeError''))"
  by (cases "sr_url r") simp_all

lemma collect_urls_cases:
  obtains
    (bad) "\<not> is_str (sr_url r)"
      "collect_urls (r # rs) acc = (acc, [], Some (OtherException ''AttributeError''))"
  | (skip) u where "sr_url r = JStr u" "denylisted u \<or> u \<in> set acc"
      "collect_urls (r # rs) acc = collect_urls rs acc"
  | (add) u urls evs exc where "sr_url r = JStr u" "\<not> denylisted u" "u \<notin> set acc"
      "collect_urls rs (acc @ [u]) = (urls, evs, exc)"
      "collect_urls (r # rs) acc
         = (urls, EvFound u (if py_truthy (sr_title r) then sr_title r else JStr ''Web Result'') # evs, exc)"
proof (cases "is_str (sr_url r)")
  case False
  then show ?thesis using bad collect_urls_Cons_other by blast
next
  case True
  then obtain u where u: "sr_url r = JStr u" by (cases "sr_url r") simp_all
  show ?thesis
  proof (cases "denylisted u \<or> u \<in> set acc")
    case True
    then show ?thesis using skip [OF u] collect_urls_Cons_str [OF u, of rs acc] by simp
  next
    case False
    obtain urls evs exc where c: "collect_urls rs (acc @ [u]) = (urls, evs, exc)"
      by (cases "collect_urls rs (acc @ [u])") auto
    show ?thesis
      using False add [OF u _ _ c] collect_urls_Cons_str [OF u, of rs acc] by (simp add: c)
  qed
qed

lemma url_strings_Cons_str: "sr_url r = JStr u \<Longrightarrow> url_strings (r # rs) = u # url_strings rs"
  by simp

lemma url_strings_Cons_other: "\<not> is_str (sr_url r) \<Longrightarrow> url_strings (r # rs) = url_strings rs"
  by (cases "sr_url r") simp_all

declare collect_urls.simps (2) [simp del]
declare url_strings.simps (2) [simp del]

lemma collect_urls_fst:
  "fst (collect_urls rs acc) = acc @ found_urls (fst (snd (collect_urls rs acc)))"
proof (induction rs arbitrary: acc)
  case Nil
  show ?case by simp
next
  case (Cons r rs)
  show ?case
  proof (cases rule: collect_urls_cases [of r rs acc])
    case bad
    then show ?thesis by simp
  next
    case (skip u)
    then show ?thesis using Cons.IH [of acc] by simp
  next
    case (add u urls evs exc)
    then show ?thesis using Cons.IH [of "acc @ [u]"] by simp
  qed
qed

lemma collect_urls_found_subset:
  "set (found_urls (fst (snd (collect_urls rs acc))))
     \<subseteq> {u \<in> set (url_strings rs). \<not> denylisted u} - set acc"
proof (induction rs arbitrary: acc)
  case Nil
  show ?case by simp
next
  case (Cons r rs)
  show ?case
  proof (cases rule: collect_urls_cases [of r rs acc])
    case bad
    then show ?thesis by simp
  next
    case (skip u)
    then show ?thesis using Cons.IH [of acc] by (auto simp add: url_strings_Cons_str)
  next
    case (add u urls evs exc)
    then show ?thesis using Cons.IH [of "acc @ [u]"] by (auto simp add: url_strings_Cons_str)
  qed
qed

lemma collect_urls_typed:
  assumes "list_all (\<lambda>r. is_str (sr_url r)) rs"
  shows "snd (snd (collect_urls rs acc)) = None
       \<and> set (found_urls (fst (snd (collect_urls rs acc))))
            = {u \<in> set (url_strings rs). \<not> denylisted u} - set acc"
  using assms
proof (induction rs arbitrary: acc)
  case Nil
  show ?case by simp
next
  case (Cons r rs)
  then have typed: "list_all (\<lambda>r. is_str (sr_url r)) rs" and this_one: "is_str (sr_url r)"
    by simp_all
  show ?case
  proof (cases rule: collect_urls_cases [of r rs acc])
    case bad
    then show ?thesis using this_one by simp
  next
    case (skip u)
    then show ?thesis using Cons.IH [OF typed, of acc] by (auto simp add: url_strings_Cons_str)
  next
    case (add u urls evs exc)
    then show ?thesis using Cons.IH [OF typed, of "acc @ [u]"] by (auto simp add: url_strings_Cons_str)
  qed
qed

lemma collect_urls_distinct:
  "distinct acc \<Longrightarrow> distinct (fst (collect_urls rs acc))"
proof (induction rs arbitrary: acc)
  case Nil
  then show ?case by simp
next
  case (Cons r rs)
  show ?case
  proof (cases rule: collect_urls_cases [of r rs acc])
    case bad
    then show ?thesis using Cons.prems by simp
  next
    case (skip u)
    then show ?thesis using Cons.IH [of acc] Cons.prems by simp
  next
    case (add u urls evs exc)
    then show ?thesis using Cons.IH [of "acc @ [u]"] Cons.prems by simp
  qed
qed

lemma collect_urls_only_found:
  "length (fst (snd (collect_urls rs acc))) = length (found_urls (fst (snd (collect_urls rs acc))))"
proof (induction rs arbitrary: acc)
  case Nil
  show ?case by simp
next
  case (Cons r rs)
  show ?case
  proof (cases rule: collect_urls_cases [of r rs acc])
    case bad
    then show ?thesis by simp
  next
    case (skip u)
    then show ?thesis using Cons.IH [of acc] by simp
  next
    case (add u urls evs exc)
    then show ?thesis using Cons.IH [of "acc @ [u]"] by simp
  qed
qed

lemma distinct_count_list: "distinct xs \<Longrightarrow> count_list xs x = (if x \<in> set xs then 1 else 0)"
  by (induction xs) auto

lemma collect_urls_found_eq: "found_urls (fst (snd (collect_urls rs []))) = fst (collect_urls rs [])"
  using collect_urls_fst [of rs "[]"] by simp

lemma collect_urls_score:
  "collect_urls (map (\<lambda>r. r\<lparr>sr_score := f r\<rparr>) rs) acc = collect_urls rs acc"
proof (induction rs arbitrary: acc)
  case Nil
  show ?case by simp
next
  case (Cons r rs)
  show ?case
    by (cases "sr_url r") (simp_all add: collect_urls.simps (2) Cons.IH Let_def)
qed

lemma urls_to_process_length: "length (urls_to_process env all_urls) \<le> 10"
  by (simp add: urls_to_process_def)

lemma urls_to_process_enumeration:
  assumes "distinct (set_iteration env all_urls)" "set (set_iteration env all_urls) = set all_urls"
  shows "distinct (urls_to_process env all_urls)"
    and "set (urls_to_process env all_urls) \<subseteq> set all_urls"
    and "distinct all_urls \<Longrightarrow> length (urls_to_process env all_urls) = min 10 (length all_urls)"
    and "distinct all_urls \<Longrightarrow> length all_urls \<le> 10 \<Longrightarrow> set (urls_to_process env all_urls) = set all_urls"
proof -
  show "distinct (urls_to_process env all_urls)"
    using assms by (simp add: urls_to_process_def)
  show "set (urls_to_process env all_urls) \<subseteq> set all_urls"
    using assms set_take_subset [of 10 "set_iteration env all_urls"] by (simp add: urls_to_process_def)
  assume d: "distinct all_urls"
  have len: "length (set_iteration env all_urls) = length all_urls"
    using assms d distinct_card [of all_urls] distinct_card [of "set_iteration env all_urls"] by simp
  show "length (urls_to_process env all_urls) = min 10 (length all_urls)"
    by (simp add: urls_to_process_def len min.commute)
  assume "length all_urls \<le> 10"
  then show "set (urls_to_process env all_urls) = set all_urls"
    using assms len by (simp add: urls_to_process_def)
qed

text \<open>
  Claim C5. The loop over the merged search results adds a URL to the set and emits a
  \<open>found\<close> event for it exactly when it is not denylisted and not yet in the set. So
  the \<open>found\<close> events list the set in the order of discovery, without repetition;
  when every result carries a \<open>str\<close> as URL, a URL has one \<open>found\<close> event if it occurs
  among the results and is not denylisted, and none otherwise. The URLs handed to the
  crawl stage are taken from the set, so they are distinct as well and none of them
  is denylisted. A URL is denylisted as soon as it holds, in any mix of upper and
  lower case, one of the patterns.
\<close>

theorem dedup_and_denylist:
  "found_urls (fst (snd (collect_urls results []))) = fst (collect_urls results [])
   \<and> distinct (found_urls (fst (snd (collect_urls results []))))
   \<and> (list_all (\<lambda>r. is_str (sr_url r)) results \<longrightarrow>
        (\<forall>u. count_list (found_urls (fst (snd (collect_urls results [])))) u
               = (if u \<in> set (url_strings results) \<and> \<not> denylisted u then 1 else 0)))
   \<and> (distinct (set_iteration env (fst (collect_urls results [])))
        \<and> set (set_iteration env (fst (collect_urls results []))) = set (fst (collect_urls results []))
      \<longrightarrow> distinct (urls_to_process env (fst (collect_urls results [])))
        \<and> set (urls_to_process env (fst (collect_urls results []))) \<subseteq> set (fst (collect_urls results []))
        \<and> (\<forall>u. denylisted u \<longrightarrow> u \<notin> set (urls_to_process env (fst (collect_urls results [])))))
   \<and> (\<forall>u. denylisted u \<longrightarrow> u \<notin> set (found_urls (fst (snd (collect_urls results [])))))
   \<and> (\<forall>p v u. p \<in> set skip_patterns \<and> lower v = p \<and> sublist v u \<longrightarrow> denylisted u)"
proof -
  let ?urls = "fst (collect_urls results [])"
  let ?found = "found_urls (fst (snd (collect_urls results [])))"
  have eq: "?found = ?urls" by (rule collect_urls_found_eq)
  have d: "distinct ?urls" using collect_urls_distinct [of "[]" results] by simp
  have sub: "set ?found \<subseteq> {u \<in> set (url_strings results). \<not> denylisted u}"
    using collect_urls_found_subset [of results "[]"] by simp
  have deny: "\<forall>u. denylisted u \<longrightarrow> u \<notin> set ?found" using sub by auto
  have count: "list_all (\<lambda>r. is_str (sr_url r)) results \<longrightarrow>
        (\<forall>u. count_list ?found u = (if u \<in> set (url_strings results) \<and> \<not> denylisted u then 1 else 0))"
  proof
    assume "list_all (\<lambda>r. is_str (sr_url r)) results"
    then have "set ?found = {u \<in> set (url_strings results). \<not> denylisted u}"
      using collect_urls_typed [of results "[]"] by simp
    then show "\<forall>u. count_list ?found u = (if u \<in> set (url_strings results) \<and> \<not> denylisted u then 1 else 0)"
      using d eq distinct_count_list [of ?found] by auto
  qed
  have fwd: "distinct (set_iteration env ?urls) \<and> set (set_iteration env ?urls) = set ?urls
      \<longrightarrow> distinct (urls_to_process env ?urls)
        \<and> set (urls_to_process env ?urls) \<subseteq> set ?urls
        \<and> (\<forall>u. denylisted u \<longrightarrow> u \<notin> set (urls_to_process env ?urls))"
  proof
    assume a: "distinct (set_iteration env ?urls) \<and> set (set_iteration env ?urls) = set ?urls"
    then have 1: "distinct (urls_to_process env ?urls)"
      and 2: "set (urls_to_process env ?urls) \<subseteq> set ?urls"
      using urls_to_process_enumeration(1,2) [of env ?urls] by simp_all
    have "\<forall>u. denylisted u \<longrightarrow> u \<notin> set (urls_to_process env ?urls)"
      using 2 deny eq by auto
    with 1 2 show "distinct (urls_to_process env ?urls)
        \<and> set (urls_to_process env ?urls) \<subseteq> set ?urls
        \<and> (\<forall>u. denylisted u \<longrightarrow> u \<notin> set (urls_to_process env ?urls))" by blast
  qed
  have ci: "\<forall>p v u. p \<in> set skip_patterns \<and> lower v = p \<and> sublist v u \<longrightarrow> denylisted u"
    using denylisted_case_insensitive by blast
  from eq d count fwd deny ci show ?thesis by simp
qed

lemma collect_urls_overlapping:
  "collect_urls overlapping_results [] =
     ([example_url, ''https://first.example/teams''],
      [EvFound example_url (JStr ''MIT''), EvFound ''https://first.example/teams'' (JStr ''Web Result'')],
      None)"
  by code_simp

text \<open>The theorem at four results: a URL that occurs twice, a Reddit URL written with
  capitals, and a URL with an empty title.\<close>

theorem dedup_and_denylist_witness:
  "list_all (\<lambda>r. is_str (sr_url r)) overlapping_results
   \<and> count_list (found_urls (fst (snd (collect_urls overlapping_results [])))) example_url = 1
   \<and> denylisted ''https://www.Reddit.com/r/robotics''
   \<and> count_list (found_urls (fst (snd (collect_urls overlapping_results []))))
        ''https://www.Reddit.com/r/robotics'' = 0
   \<and> ''https://www.Reddit.com/r/robotics''
        \<notin> set (urls_to_process example_env (fst (collect_urls overlapping_results [])))
   \<and> distinct (urls_to_process example_env (fst (collect_urls overlapping_results [])))"
proof -
  have typed: "list_all (\<lambda>r. is_str (sr_url r)) overlapping_results"
    by code_simp
  have reddit: "denylisted ''https://www.Reddit.com/r/robotics''"
    by code_simp
  have mit: "example_url \<in> set (url_strings overlapping_results) \<and> \<not> denylisted example_url"
    by code_simp
  have iter: "distinct (set_iteration example_env (fst (collect_urls overlapping_results [])))
        \<and> set (set_iteration example_env (fst (collect_urls overlapping_results [])))
            = set (fst (collect_urls overlapping_results []))"
    by (simp add: collect_urls_overlapping example_env_def example_url_def)
  note inst = dedup_and_denylist [of overlapping_results example_env]
  from inst typed have count:
    "\<forall>u. count_list (found_urls (fst (snd (collect_urls overlapping_results [])))) u
           = (if u \<in> set (url_strings overlapping_results) \<and> \<not> denylisted u then 1 else 0)"
    by blast
  have c1: "count_list (found_urls (fst (snd (collect_urls overlapping_results [])))) example_url = 1"
    using count [rule_format, of example_url] mit by simp
  have c0: "count_list (found_urls (fst (snd (collect_urls overlapping_results []))))
        ''https://www.Reddit.com/r/robotics'' = 0"
    using count [rule_format, of "''https://www.Reddit.com/r/robotics''"] reddit by simp
  from inst iter have fwd: "distinct (urls_to_process example_env (fst (collect_urls overlapping_results [])))"
    and no: "\<forall>u. denylisted u \<longrightarrow> u \<notin> set (urls_to_process example_env (fst (collect_urls overlapping_results [])))"
    by blast+
  from typed c1 reddit c0 no fwd show ?thesis by blast
qed

text \<open>
  Claim C4, as amended. At most 10 URLs are handed to the crawl stage. When
  \<open>list(all_urls)\<close> enumerates the set (each element once), they are
  \<open>min(10, len(all_urls))\<close> distinct URLs of the set, and all of the set when it has at
  most 10 elements. Which ones are kept when the set is larger follows the iteration
  order of the set, which is not the order of discovery; it is not the order of the
  scores either, since the collected set does not depend on them.
\<close>

theorem forwarded_urls_capped:
  "length (urls_to_process env (fst (collect_urls results []))) \<le> 10
   \<and> (distinct (set_iteration env (fst (collect_urls results [])))
        \<and> set (set_iteration env (fst (collect_urls results []))) = set (fst (collect_urls results []))
      \<longrightarrow> length (urls_to_process env (fst (collect_urls results [])))
            = min 10 (length (fst (collect_urls results [])))
        \<and> distinct (urls_to_process env (fst (collect_urls results [])))
        \<and> set (urls_to_process env (fst (collect_urls results []))) \<subseteq> set (fst (collect_urls results []))
        \<and> (length (fst (collect_urls results [])) \<le> 10
             \<longrightarrow> set (urls_to_process env (fst (collect_urls results [])))
                   = set (fst (collect_urls results []))))
   \<and> collect_urls (map (\<lambda>r. r\<lparr>sr_score := f r\<rparr>) results) [] = collect_urls results []"
proof -
  let ?urls = "fst (collect_urls results [])"
  have d: "distinct ?urls" using collect_urls_distinct [of "[]" results] by simp
  have "distinct (set_iteration env ?urls) \<and> set (set_iteration env ?urls) = set ?urls
      \<longrightarrow> length (urls_to_process env ?urls) = min 10 (length ?urls)
        \<and> distinct (urls_to_process env ?urls)
        \<and> set (urls_to_process env ?urls) \<subseteq> set ?urls
        \<and> (length ?urls \<le> 10 \<longrightarrow> set (urls_to_process env ?urls) = set ?urls)"
    using urls_to_process_enumeration [of env ?urls] d by blast
  then show ?thesis
    using urls_to_process_length [of env ?urls] collect_urls_score [of f results "[]"] by blast
qed

lemma collect_urls_eleven:
  "fst (collect_urls eleven_results []) = map site_url [0..<11]"
  by code_simp

text \<open>The theorem at eleven URLs and a set that is iterated from the last element added
  to the first.\<close>

theorem forwarded_urls_capped_witness:
  "distinct (set_iteration reversing_env (fst (collect_urls eleven_results [])))
   \<and> set (set_iteration reversing_env (fst (collect_urls eleven_results [])))
       = set (fst (collect_urls eleven_results []))
   \<and> length (urls_to_process reversing_env (fst (collect_urls eleven_results []))) = 10
   \<and> distinct (urls_to_process reversing_env (fst (collect_urls eleven_results [])))"
proof -
  have d: "distinct (fst (collect_urls eleven_results []))"
    using collect_urls_distinct [of "[]" eleven_results] by simp
  have iter: "distinct (set_iteration reversing_env (fst (collect_urls eleven_results [])))
       \<and> set (set_iteration reversing_env (fst (collect_urls eleven_results [])))
           = set (fst (collect_urls eleven_results []))"
    using d by (simp add: reversing_env_def)
  have len: "length (fst (collect_urls eleven_results [])) = 11"
    by (simp add: collect_urls_eleven)
  from forwarded_urls_capped [of reversing_env eleven_results] iter len
  show ?thesis by simp
qed

section \<open>The run as a whole\<close>

lemma do_search_events: "concat (map (fst \<circ> do_search env) qs) = map EvSearch qs"
  by (induction qs) (simp_all add: do_search_def)

lemma gather_searches:
  "gather (map (snd \<circ> do_search env) qs)
     = Inr (map (\<lambda>q. case search_client_search env q 10 of Inl e \<Rightarrow> [] | Inr rs \<Rightarrow> rs) qs)"
  using gather_do_search [of env qs] by (simp add: comp_def)

lemma main_unconfigured:
  assumes "db_url_of (getenv_DATABASE_URL env) = None \<or> db_url_of (getenv_DATABASE_URL env) = Some []"
  shows "main env w query =
     ([EvPlan (''Analyzing request: '' @ [CHR 0x27] @ query @ [CHR 0x27]),
       EvError ''DATABASE_URL not found''], None, w)"
  using assms by (auto simp add: main_def Let_def)

lemma main_startup_raises:
  assumes "db_url_of (getenv_DATABASE_URL env) \<noteq> None" "db_url_of (getenv_DATABASE_URL env) \<noteq> Some []"
    and "startup env = Some e"
  shows "main env w query =
     ([EvPlan (''Analyzing request: '' @ [CHR 0x27] @ query @ [CHR 0x27])], Some e, w)"
  using assms by (simp add: main_def Let_def)

lemma main_unfold:
  assumes db: "db_url_of (getenv_DATABASE_URL env) \<noteq> None" "db_url_of (getenv_DATABASE_URL env) \<noteq> Some []"
    and up: "startup env = None"
    and coll: "collect_urls (merged_results env query) [] = (all_urls, found, None)"
    and batch: "crawler_crawl_batch env (urls_to_process env all_urls) = Inr crawl_results"
  shows "main env w query =
     ([EvPlan (''Analyzing request: '' @ [CHR 0x27] @ query @ [CHR 0x27]),
       EvPlan ''Generating targeted high school search strategies...'']
      @ map EvSearch (search_queries (current_year env) query)
      @ found
      @ [EvPlan (''Found '' @ str_nat (length all_urls) @ '' sources. Analyzing ''
                 @ str_nat (length (urls_to_process env all_urls)) @ '' in parallel...'')]
      @ map EvAnalyzing (urls_to_process env all_urls)
      @ fst (emit_results (fst (extract_all (collab env) w crawl_results)) 0)
      @ [EvComplete (snd (emit_results (fst (extract_all (collab env) w crawl_results)) 0))],
      sync_close env,
      snd (extract_all (collab env) w crawl_results))"
  using db up coll batch
  by (simp add: main_def Let_def do_search_events gather_searches merged_results_def [symmetric]
      split: prod.splits)

lemma emit_results_no_complete: "\<not> list_ex is_complete (fst (emit_results rs n))"
proof (induction rs arbitrary: n)
  case Nil
  show ?case by simp
next
  case (Cons r rs)
  show ?case
  proof (cases r)
    case (Failed m u)
    then show ?thesis using Cons.IH [of n] by (auto split: prod.splits)
  next
    case (Succeeded u cd)
    then show ?thesis using Cons.IH [of "n + 1"] by (auto split: prod.splits)
  qed
qed

lemma emit_results_count:
  "snd (emit_results rs n) = n + length (filter is_extracted (fst (emit_results rs n)))
   \<and> length (filter is_extracted (fst (emit_results rs n))) = length (filter (\<lambda>r. \<not> is_failed r) rs)"
proof (induction rs arbitrary: n)
  case Nil
  show ?case by simp
next
  case (Cons r rs)
  show ?case
  proof (cases r)
    case (Failed m u)
    then show ?thesis using Cons.IH [of n] by (auto split: prod.splits)
  next
    case (Succeeded u cd)
    then show ?thesis using Cons.IH [of "n + 1"] by (auto split: prod.splits)
  qed
qed

lemma emit_results_no_found: "found_urls (fst (emit_results rs n)) = [] \<and> analyzing_urls (fst (emit_results rs n)) = []"
proof (induction rs arbitrary: n)
  case Nil
  show ?case by simp
next
  case (Cons r rs)
  show ?case
  proof (cases r)
    case (Failed m u)
    then show ?thesis using Cons.IH [of n] by (auto split: prod.splits)
  next
    case (Succeeded u cd)
    then show ?thesis using Cons.IH [of "n + 1"] by (auto split: prod.splits)
  qed
qed

lemma search_events_plain:
  "\<not> list_ex is_complete (map EvSearch qs) \<and> filter is_extracted (map EvSearch qs) = []
   \<and> found_urls (map EvSearch qs) = [] \<and> analyzing_urls (map EvSearch qs) = []"
  by (induction qs) simp_all

lemma analyzing_events_plain:
  "\<not> list_ex is_complete (map EvAnalyzing us) \<and> filter is_extracted (map EvAnalyzing us) = []
   \<and> found_urls (map EvAnalyzing us) = [] \<and> analyzing_urls (map EvAnalyzing us) = us"
  by (induction us) simp_all

lemma collect_urls_events_plain:
  "\<not> list_ex is_complete (fst (snd (collect_urls rs acc)))
   \<and> filter is_extracted (fst (snd (collect_urls rs acc))) = []
   \<and> analyzing_urls (fst (snd (collect_urls rs acc))) = []"
proof (induction rs arbitrary: acc)
  case Nil
  show ?case by simp
next
  case (Cons r rs)
  show ?case
  proof (cases rule: collect_urls_cases [of r rs acc])
    case bad
    then show ?thesis by simp
  next
    case (skip u)
    then show ?thesis using Cons.IH [of acc] by simp
  next
    case (add u urls evs exc)
    then show ?thesis using Cons.IH [of "acc @ [u]"] by simp
  qed
qed

lemma main_collect_raises:
  assumes db: "db_url_of (getenv_DATABASE_URL env) \<noteq> None" "db_url_of (getenv_DATABASE_URL env) \<noteq> Some []"
    and up: "startup env = None"
    and coll: "collect_urls (merged_results env query) [] = (all_urls, found, Some e)"
  shows "main env w query =
     ([EvPlan (''Analyzing request: '' @ [CHR 0x27] @ query @ [CHR 0x27]),
       EvPlan ''Generating targeted high school search strategies...'']
      @ map EvSearch (search_queries (current_year env) query)
      @ found,
      Some e, w)"
  using db up coll
  by (simp add: main_def Let_def do_search_events gather_searches merged_results_def [symmetric])

lemma main_batch_raises:
  assumes db: "db_url_of (getenv_DATABASE_URL env) \<noteq> None" "db_url_of (getenv_DATABASE_URL env) \<noteq> Some []"
    and up: "startup env = None"
    and coll: "collect_urls (merged_results env query) [] = (all_urls, found, None)"
    and batch: "crawler_crawl_batch env (urls_to_process env all_urls) = Inl e"
  shows "main env w query =
     ([EvPlan (''Analyzing request: '' @ [CHR 0x27] @ query @ [CHR 0x27]),
       EvPlan ''Generating targeted high school search strategies...'']
      @ map EvSearch (search_queries (current_year env) query)
      @ found
      @ [EvPlan (''Found '' @ str_nat (length all_urls) @ '' sources. Analyzing ''
                 @ str_nat (length (urls_to_process env all_urls)) @ '' in parallel...'')]
      @ map EvAnalyzing (urls_to_process env all_urls),
      Some e, w)"
  using db up coll batch
  by (simp add: main_def Let_def do_search_events gather_searches merged_results_def [symmetric])

text \<open>What \<open>main\<close> writes on the path that reaches its end: one \<open>complete\<close> event, last,
  with the number of \<open>extracted\<close> events; what is left to raise is \<open>sync.close()\<close>.\<close>

lemma main_complete_last:
  assumes "db_url_of (getenv_DATABASE_URL env) \<noteq> None \<and> db_url_of (getenv_DATABASE_URL env) \<noteq> Some []
        \<and> startup env = None
        \<and> list_all (\<lambda>r. is_str (sr_url r)) (merged_results env query)
        \<and> crawler_crawl_batch env (urls_to_process env (fst (collect_urls (merged_results env query) [])))
            = Inr crawl_results"
  shows "\<exists>evs n. fst (main env w query) = evs @ [EvComplete n]
             \<and> fst (snd (main env w query)) = sync_close env
             \<and> \<not> list_ex is_complete evs
             \<and> n = length (filter is_extracted evs)
             \<and> n = length (filter (\<lambda>r. \<not> is_failed r) (fst (extract_all (collab env) w crawl_results)))"
proof -
  note a = assms
  let ?coll = "collect_urls (merged_results env query) []"
  let ?results = "fst (extract_all (collab env) w crawl_results)"
  have none: "snd (snd ?coll) = None"
    using a collect_urls_typed [of "merged_results env query" "[]"] by simp
  then have coll: "?coll = (fst ?coll, fst (snd ?coll), None)"
    by (metis prod.collapse)
  let ?evs = "[EvPlan (''Analyzing request: '' @ [CHR 0x27] @ query @ [CHR 0x27]),
       EvPlan ''Generating targeted high school search strategies...'']
      @ map EvSearch (search_queries (current_year env) query)
      @ fst (snd ?coll)
      @ [EvPlan (''Found '' @ str_nat (length (fst ?coll)) @ '' sources. Analyzing ''
                 @ str_nat (length (urls_to_process env (fst ?coll))) @ '' in parallel...'')]
      @ map EvAnalyzing (urls_to_process env (fst ?coll))
      @ fst (emit_results ?results 0)"
  let ?n = "snd (emit_results ?results 0)"
  have m: "fst (main env w query) = ?evs @ [EvComplete ?n]"
    using main_unfold [of env query "fst ?coll" "fst (snd ?coll)" crawl_results w] a coll by simp
  have nc: "\<not> list_ex is_complete ?evs"
    using search_events_plain [of "search_queries (current_year env) query"]
      analyzing_events_plain [of "urls_to_process env (fst ?coll)"]
      collect_urls_events_plain [of "merged_results env query" "[]"]
      emit_results_no_complete [of ?results 0]
    by simp
  have cnt: "?n = length (filter is_extracted ?evs)"
    using search_events_plain [of "search_queries (current_year env) query"]
      analyzing_events_plain [of "urls_to_process env (fst ?coll)"]
      collect_urls_events_plain [of "merged_results env query" "[]"]
      emit_results_count [of ?results 0]
    by simp
  have cnt2: "?n = length (filter (\<lambda>r. \<not> is_failed r) ?results)"
    using emit_results_count [of ?results 0] by simp
  have ex: "fst (snd (main env w query)) = sync_close env"
    using main_unfold [of env query "fst ?coll" "fst (snd ?coll)" crawl_results w] a coll by simp
  show ?thesis
    using m ex nc cnt cnt2 by blast
qed

lemma main_found_analyzing:
  assumes db: "db_url_of (getenv_DATABASE_URL env) \<noteq> None" "db_url_of (getenv_DATABASE_URL env) \<noteq> Some []"
    and up: "startup env = None"
    and typed: "list_all (\<lambda>r. is_str (sr_url r)) (merged_results env query)"
    and batch: "crawler_crawl_batch env (urls_to_process env (fst (collect_urls (merged_results env query) [])))
                  = Inr crawl_results"
  shows "found_urls (fst (main env w query)) = fst (collect_urls (merged_results env query) [])"
    and "analyzing_urls (fst (main env w query))
           = urls_to_process env (fst (collect_urls (merged_results env query) []))"
proof -
  let ?coll = "collect_urls (merged_results env query) []"
  have "snd (snd ?coll) = None"
    using typed collect_urls_typed [of "merged_results env query" "[]"] by simp
  then have coll: "?coll = (fst ?coll, fst (snd ?coll), None)"
    by (metis prod.collapse)
  note m = main_unfold [OF db up coll batch, of w]
  show "found_urls (fst (main env w query)) = fst ?coll"
    using search_events_plain [of "search_queries (current_year env) query"]
      analyzing_events_plain [of "urls_to_process env (fst ?coll)"]
      emit_results_no_found [of "fst (extract_all (collab env) w crawl_results)" 0]
      collect_urls_found_eq [of "merged_results env query"]
    by (simp add: m found_urls_append)
  show "analyzing_urls (fst (main env w query)) = urls_to_process env (fst ?coll)"
    using search_events_plain [of "search_queries (current_year env) query"]
      analyzing_events_plain [of "urls_to_process env (fst ?coll)"]
      emit_results_no_found [of "fst (extract_all (collab env) w crawl_results)" 0]
      collect_urls_events_plain [of "merged_results env query" "[]"]
    by (simp add: m analyzing_urls_append)
qed

lemma db_url_example:
  "db_url_of (Some ''postgresql://scraper@db.example/ec'') = Some ''postgresql://scraper@db.example/ec''"
  by code_simp

lemma merged_results_reversing: "merged_results reversing_env ''robotics'' = eleven_results"
  by (simp add: merged_results_def reversing_env_def example_env_def search_queries_robotics)

lemma eleven_results_typed: "list_all (\<lambda>r. is_str (sr_url r)) eleven_results"
  by code_simp

lemma reversed_take: "take 10 (rev (map site_url [0..<11])) = rev (map site_url [1..<11])"
  by code_simp

lemma reversed_differs:
  "rev (map site_url [1..<11]) \<noteq> take 10 (map site_url [0..<11])
   \<and> site_url 0 \<notin> set (rev (map site_url [1..<11]))"
  by code_simp

text \<open>
  Claim C4 as stated fails. Eleven URLs are discovered, \<open>site_url 0\<close> first and
  \<open>site_url 10\<close> last; the set is iterated from the last element added to the first.
  The run announces (\<open>analyzing\<close> events) and crawls the ten URLs discovered last, in
  the reverse of the discovery order: the URL discovered first is dropped.
\<close>

theorem truncation_not_in_discovery_order:
  "found_urls (fst (main reversing_env empty_world ''robotics'')) = map site_url [0..<11]
   \<and> analyzing_urls (fst (main reversing_env empty_world ''robotics'')) = rev (map site_url [1..<11])
   \<and> analyzing_urls (fst (main reversing_env empty_world ''robotics''))
        \<noteq> take 10 (found_urls (fst (main reversing_env empty_world ''robotics'')))
   \<and> site_url 0 \<notin> set (analyzing_urls (fst (main reversing_env empty_world ''robotics'')))"
proof -
  have db: "db_url_of (getenv_DATABASE_URL reversing_env) \<noteq> None"
    "db_url_of (getenv_DATABASE_URL reversing_env) \<noteq> Some []"
    by (simp_all add: reversing_env_def example_env_def db_url_example)
  have up: "startup reversing_env = None"
    by (simp add: reversing_env_def example_env_def)
  have typed: "list_all (\<lambda>r. is_str (sr_url r)) (merged_results reversing_env ''robotics'')"
    by (simp add: merged_results_reversing eleven_results_typed)
  have batch: "crawler_crawl_batch reversing_env
        (urls_to_process reversing_env (fst (collect_urls (merged_results reversing_env ''robotics'') [])))
      = Inr (map crawl_ok (urls_to_process reversing_env (fst (collect_urls (merged_results reversing_env ''robotics'') []))))"
    by (simp add: reversing_env_def example_env_def)
  have it: "set_iteration reversing_env = rev"
    by (simp add: reversing_env_def)
  have f: "found_urls (fst (main reversing_env empty_world ''robotics'')) = map site_url [0..<11]"
    using main_found_analyzing(1) [OF db up typed batch, of empty_world]
    by (simp add: merged_results_reversing collect_urls_eleven)
  have a: "analyzing_urls (fst (main reversing_env empty_world ''robotics'')) = rev (map site_url [1..<11])"
    using main_found_analyzing(2) [OF db up typed batch, of empty_world]
    by (simp add: merged_results_reversing collect_urls_eleven urls_to_process_def reversed_take it)
  show ?thesis
    unfolding f a using reversed_differs by simp
qed

lemma merged_results_example_typed:
  "list_all (\<lambda>r. is_str (sr_url r)) (merged_results example_env ''robotics'')"
  by code_simp

lemma example_accepts_five:
  "length (filter (\<lambda>r. \<not> is_failed r)
     (fst (extract_all (collab example_env) empty_world
        (map crawl_ok (urls_to_process example_env
           (fst (collect_urls (merged_results example_env ''robotics'') []))))))) = 5"
  by code_simp

lemma main_collect_raises_events:
  assumes db: "db_url_of (getenv_DATABASE_URL env) \<noteq> None" "db_url_of (getenv_DATABASE_URL env) \<noteq> Some []"
    and up: "startup env = None"
    and exc: "snd (snd (collect_urls (merged_results env query) [])) = Some e"
  shows "fst (snd (main env w query)) = Some e \<and> \<not> list_ex is_complete (fst (main env w query))"
proof -
  let ?coll = "collect_urls (merged_results env query) []"
  have coll: "?coll = (fst ?coll, fst (snd ?coll), Some e)"
    using exc by (metis prod.collapse)
  show ?thesis
    using search_events_plain [of "search_queries (current_year env) query"]
      collect_urls_events_plain [of "merged_results env query" "[]"]
    by (simp add: main_collect_raises [OF db up coll])
qed

lemma main_batch_raises_events:
  assumes db: "db_url_of (getenv_DATABASE_URL env) \<noteq> None" "db_url_of (getenv_DATABASE_URL env) \<noteq> Some []"
    and up: "startup env = None"
    and typed: "list_all (\<lambda>r. is_str (sr_url r)) (merged_results env query)"
    and batch: "crawler_crawl_batch env (urls_to_process env (fst (collect_urls (merged_results env query) [])))
                  = Inl e"
  shows "fst (snd (main env w query)) = Some e \<and> \<not> list_ex is_complete (fst (main env w query))"
proof -
  let ?coll = "collect_urls (merged_results env query) []"
  have "snd (snd ?coll) = None"
    using typed collect_urls_typed [of "merged_results env query" "[]"] by simp
  then have coll: "?coll = (fst ?coll, fst (snd ?coll), None)"
    by (metis prod.collapse)
  show ?thesis
    using search_events_plain [of "search_queries (current_year env) query"]
      collect_urls_events_plain [of "merged_results env query" "[]"]
      analyzing_events_plain [of "urls_to_process env (fst ?coll)"]
    by (simp add: main_batch_raises [OF db up coll batch])
qed

lemma run_script_returns:
  assumes "2 \<le> length argv" "fst (snd (main env w (join '' '' (tl argv)))) = None"
  shows "fst (run_script env w argv) = fst (main env w (join '' '' (tl argv)))"
  using assms by (cases "main env w (join '' '' (tl argv))") (auto simp add: run_script_def)

lemma run_script_raises:
  assumes "2 \<le> length argv" "fst (snd (main env w (join '' '' (tl argv)))) = Some e"
  shows "fst (run_script env w argv) = fst (main env w (join '' '' (tl argv))) @ [EvError (exc_str e)]"
  using assms by (cases "main env w (join '' '' (tl argv))") (auto simp add: run_script_def)

text \<open>
  Claim C8, as amended. A run whose \<open>DATABASE_URL\<close> is missing or blank writes the
  \<open>plan\<close> event and one \<open>error\<close> event and ends: no \<open>complete\<close> event. A run that is
  configured, whose start-up, \<open>crawl_batch\<close> and \<open>sync.close()\<close> do not raise and
  whose search results all carry a \<open>str\<close> as URL writes exactly one \<open>complete\<close> event,
  as its last event, and the count it carries is the number of \<open>extracted\<close> events
  before it, which may be zero. When an exception leaves \<open>main\<close>, the last event of
  the run is the \<open>error\<close> event of the handler around \<open>main\<close>.
\<close>

theorem complete_event_last:
  "(2 \<le> length argv
      \<and> (db_url_of (getenv_DATABASE_URL env) = None \<or> db_url_of (getenv_DATABASE_URL env) = Some [])
      \<longrightarrow> fst (run_script env w argv)
            = [EvPlan (''Analyzing request: '' @ [CHR 0x27] @ join '' '' (tl argv) @ [CHR 0x27]),
               EvError ''DATABASE_URL not found'']
          \<and> \<not> list_ex is_complete (fst (run_script env w argv)))
   \<and> (2 \<le> length argv
        \<and> db_url_of (getenv_DATABASE_URL env) \<noteq> None \<and> db_url_of (getenv_DATABASE_URL env) \<noteq> Some []
        \<and> startup env = None
        \<and> list_all (\<lambda>r. is_str (sr_url r)) (merged_results env (join '' '' (tl argv)))
        \<and> crawler_crawl_batch env
             (urls_to_process env (fst (collect_urls (merged_results env (join '' '' (tl argv))) [])))
            = Inr crawl_results
        \<and> sync_close env = None
      \<longrightarrow> (\<exists>evs n. fst (run_script env w argv) = evs @ [EvComplete n]
             \<and> \<not> list_ex is_complete evs
             \<and> n = length (filter is_extracted evs)
             \<and> n = length (filter (\<lambda>r. \<not> is_failed r) (fst (extract_all (collab env) w crawl_results)))))
   \<and> (2 \<le> length argv \<and> fst (snd (main env w (join '' '' (tl argv)))) = Some e
      \<longrightarrow> fst (run_script env w argv) = fst (main env w (join '' '' (tl argv))) @ [EvError (exc_str e)]
        \<and> last (fst (run_script env w argv)) = EvError (exc_str e))"
proof (intro conjI impI)
  assume a: "2 \<le> length argv
      \<and> (db_url_of (getenv_DATABASE_URL env) = None \<or> db_url_of (getenv_DATABASE_URL env) = Some [])"
  then have un: "db_url_of (getenv_DATABASE_URL env) = None \<or> db_url_of (getenv_DATABASE_URL env) = Some []"
    by simp
  have r: "fst (run_script env w argv) = fst (main env w (join '' '' (tl argv)))"
    using a run_script_returns [of argv env w] by (simp add: main_unconfigured [OF un])
  show "fst (run_script env w argv)
            = [EvPlan (''Analyzing request: '' @ [CHR 0x27] @ join '' '' (tl argv) @ [CHR 0x27]),
               EvError ''DATABASE_URL not found'']"
    by (simp add: r main_unconfigured [OF un])
  show "\<not> list_ex is_complete (fst (run_script env w argv))"
    by (simp add: r main_unconfigured [OF un])
next
  assume a: "2 \<le> length argv
        \<and> db_url_of (getenv_DATABASE_URL env) \<noteq> None \<and> db_url_of (getenv_DATABASE_URL env) \<noteq> Some []
        \<and> startup env = None
        \<and> list_all (\<lambda>r. is_str (sr_url r)) (merged_results env (join '' '' (tl argv)))
        \<and> crawler_crawl_batch env
             (urls_to_process env (fst (collect_urls (merged_results env (join '' '' (tl argv))) [])))
            = Inr crawl_results
        \<and> sync_close env = None"
  let ?q = "join '' '' (tl argv)"
  from a main_complete_last [of env ?q crawl_results w]
  obtain evs n where m: "fst (main env w ?q) = evs @ [EvComplete n]"
    "fst (snd (main env w ?q)) = sync_close env"
    "\<not> list_ex is_complete evs" "n = length (filter is_extracted evs)"
    "n = length (filter (\<lambda>r. \<not> is_failed r) (fst (extract_all (collab env) w crawl_results)))"
    by blast
  have "fst (run_script env w argv) = fst (main env w ?q)"
    using a m(2) run_script_returns [of argv env w] by simp
  then show "\<exists>evs n. fst (run_script env w argv) = evs @ [EvComplete n]
             \<and> \<not> list_ex is_complete evs
             \<and> n = length (filter is_extracted evs)
             \<and> n = length (filter (\<lambda>r. \<not> is_failed r) (fst (extract_all (collab env) w crawl_results)))"
    using m by auto
next
  assume a: "2 \<le> length argv \<and> fst (snd (main env w (join '' '' (tl argv)))) = Some e"
  then show "fst (run_script env w argv) = fst (main env w (join '' '' (tl argv))) @ [EvError (exc_str e)]"
    using run_script_raises [of argv env w e] by simp
  then show "last (fst (run_script env w argv)) = EvError (exc_str e)" by simp
qed

lemma example_argv_query: "2 \<le> length example_argv \<and> join '' '' (tl example_argv) = ''robotics''"
  by (simp add: example_argv_def)

lemma db_url_example_env:
  "db_url_of (getenv_DATABASE_URL example_env) \<noteq> None
   \<and> db_url_of (getenv_DATABASE_URL example_env) \<noteq> Some []"
  by (simp add: example_env_def db_url_example)

lemma closing_env_like_example:
  "getenv_DATABASE_URL closing_env = getenv_DATABASE_URL example_env
   \<and> startup closing_env = None
   \<and> merged_results closing_env q = merged_results example_env q
   \<and> urls_to_process closing_env urls = urls_to_process example_env urls
   \<and> crawler_crawl_batch closing_env urls = Inr (map crawl_ok urls)
   \<and> collab closing_env = collab example_env
   \<and> sync_close closing_env = Some (OtherException ''connection already closed'')"
  by (simp add: closing_env_def example_env_def merged_results_def urls_to_process_def)

lemma crawler_down_env_like_example:
  "getenv_DATABASE_URL crawler_down_env = getenv_DATABASE_URL example_env
   \<and> startup crawler_down_env = None
   \<and> merged_results crawler_down_env q = merged_results example_env q
   \<and> crawler_crawl_batch crawler_down_env urls = Inl (OtherException ''browser not installed'')"
  by (simp add: crawler_down_env_def example_env_def merged_results_def)

lemma null_url_env_like_example:
  "getenv_DATABASE_URL null_url_env = getenv_DATABASE_URL example_env \<and> startup null_url_env = None"
  by (simp add: null_url_env_def example_env_def)

lemma search_null_url_client:
  "search null_url_client ''robotics internship for high school students'' None None None 10
     = Inr [\<lparr>sr_url = JNull, sr_title = JStr ''No link'', sr_snippet = JStr '''',
             sr_engine = JStr ''unknown'', sr_score = JNum 0\<rparr>]"
  by code_simp

lemma collect_urls_null_url:
  "snd (snd (collect_urls (merged_results null_url_env ''robotics'') []))
     = Some (OtherException ''AttributeError'')"
  by code_simp

lemma main_null_url:
  "fst (snd (main null_url_env empty_world ''robotics'')) = Some (OtherException ''AttributeError'')
   \<and> \<not> list_ex is_complete (fst (main null_url_env empty_world ''robotics''))"
  using main_collect_raises_events [of null_url_env "''robotics''" "OtherException ''AttributeError''" empty_world]
    db_url_example_env null_url_env_like_example collect_urls_null_url
  by simp

lemma main_crawler_down:
  "fst (snd (main crawler_down_env empty_world ''robotics'')) = Some (OtherException ''browser not installed'')
   \<and> \<not> list_ex is_complete (fst (main crawler_down_env empty_world ''robotics''))"
  using main_batch_raises_events [of crawler_down_env "''robotics''"
      "OtherException ''browser not installed''" empty_world]
    db_url_example_env crawler_down_env_like_example merged_results_example_typed
  by simp

lemma main_unreachable_db:
  "main unreachable_db_env empty_world ''robotics''
     = ([EvPlan (''Analyzing request: '' @ [CHR 0x27] @ ''robotics'' @ [CHR 0x27])],
        Some (OtherException ''connection refused''), empty_world)"
  using main_startup_raises [of unreachable_db_env "OtherException ''connection refused''" empty_world "''robotics''"]
    db_url_example_env
  by (simp add: unreachable_db_env_def example_env_def)

lemma main_closing:
  "\<exists>evs. fst (main closing_env empty_world ''robotics'') = evs @ [EvComplete 5]
       \<and> fst (snd (main closing_env empty_world ''robotics''))
           = Some (OtherException ''connection already closed'')"
proof -
  let ?crs = "map crawl_ok (urls_to_process example_env
           (fst (collect_urls (merged_results example_env ''robotics'') [])))"
  have hyp: "db_url_of (getenv_DATABASE_URL closing_env) \<noteq> None
        \<and> db_url_of (getenv_DATABASE_URL closing_env) \<noteq> Some []
        \<and> startup closing_env = None
        \<and> list_all (\<lambda>r. is_str (sr_url r)) (merged_results closing_env ''robotics'')
        \<and> crawler_crawl_batch closing_env
             (urls_to_process closing_env (fst (collect_urls (merged_results closing_env ''robotics'') [])))
            = Inr ?crs"
    using db_url_example_env merged_results_example_typed
    by (simp add: closing_env_like_example)
  from main_complete_last [OF hyp, of empty_world]
  obtain evs n where "fst (main closing_env empty_world ''robotics'') = evs @ [EvComplete n]"
    "fst (snd (main closing_env empty_world ''robotics'')) = sync_close closing_env"
    "n = length (filter (\<lambda>r. \<not> is_failed r) (fst (extract_all (collab closing_env) empty_world ?crs)))"
    by blast
  then show ?thesis
    using example_accepts_five by (simp add: closing_env_like_example)
qed

text \<open>
  Claim C8 as stated fails. Without \<open>DATABASE_URL\<close> the run writes two events, the
  second an \<open>error\<close>, and no \<open>complete\<close> event. When the connection to the database
  cannot be opened, when \<open>crawl_batch\<close> raises, or when a search result carries
  \<open>null\<close> as its URL, the exception leaves \<open>main\<close>: the run has no \<open>complete\<close> event and
  its last event is the \<open>error\<close> event of the handler. When \<open>sync.close()\<close> raises,
  the \<open>complete\<close> event is written and an \<open>error\<close> event follows it.
\<close>

theorem runs_not_ending_with_complete:
  "fst (run_script unconfigured_env empty_world example_argv)
     = [EvPlan (''Analyzing request: '' @ [CHR 0x27] @ ''robotics'' @ [CHR 0x27]),
        EvError ''DATABASE_URL not found'']
   \<and> fst (run_script unreachable_db_env empty_world example_argv)
     = [EvPlan (''Analyzing request: '' @ [CHR 0x27] @ ''robotics'' @ [CHR 0x27]),
        EvError ''connection refused'']
   \<and> last (fst (run_script crawler_down_env empty_world example_argv)) = EvError ''browser not installed''
   \<and> \<not> list_ex is_complete (fst (run_script crawler_down_env empty_world example_argv))
   \<and> last (fst (run_script null_url_env empty_world example_argv)) = EvError ''AttributeError''
   \<and> \<not> list_ex is_complete (fst (run_script null_url_env empty_world example_argv))
   \<and> last (fst (run_script closing_env empty_world example_argv)) = EvError ''connection already closed''
   \<and> last (butlast (fst (run_script closing_env empty_world example_argv))) = EvComplete 5"
proof -
  note q = example_argv_query
  have un: "db_url_of (getenv_DATABASE_URL unconfigured_env) = None
      \<or> db_url_of (getenv_DATABASE_URL unconfigured_env) = Some []"
    by (simp add: unconfigured_env_def db_url_of_def)
  have a: "fst (run_script unconfigured_env empty_world example_argv)
     = [EvPlan (''Analyzing request: '' @ [CHR 0x27] @ ''robotics'' @ [CHR 0x27]),
        EvError ''DATABASE_URL not found'']"
    using run_script_returns [of example_argv unconfigured_env empty_world] q
    by (simp add: main_unconfigured [OF un])
  have b: "fst (run_script unreachable_db_env empty_world example_argv)
     = [EvPlan (''Analyzing request: '' @ [CHR 0x27] @ ''robotics'' @ [CHR 0x27]),
        EvError ''connection refused'']"
    using run_script_raises [of example_argv unreachable_db_env empty_world "OtherException ''connection refused''"] q
    by (simp add: main_unreachable_db)
  have c: "fst (run_script crawler_down_env empty_world example_argv)
      = fst (main crawler_down_env empty_world ''robotics'') @ [EvError ''browser not installed'']"
    using run_script_raises [of example_argv crawler_down_env empty_world "OtherException ''browser not installed''"]
      q main_crawler_down
    by simp
  have d: "fst (run_script null_url_env empty_world example_argv)
      = fst (main null_url_env empty_world ''robotics'') @ [EvError ''AttributeError'']"
    using run_script_raises [of example_argv null_url_env empty_world "OtherException ''AttributeError''"]
      q main_null_url
    by simp
  obtain evs where evs: "fst (main closing_env empty_world ''robotics'') = evs @ [EvComplete 5]"
    "fst (snd (main closing_env empty_world ''robotics'')) = Some (OtherException ''connection already closed'')"
    using main_closing by blast
  have e: "fst (run_script closing_env empty_world example_argv)
      = evs @ [EvComplete 5, EvError ''connection already closed'']"
    using run_script_raises [of example_argv closing_env empty_world "OtherException ''connection already closed''"]
      q evs
    by simp
  have e2: "butlast (evs @ [EvComplete 5, EvError ''connection already closed'']) = evs @ [EvComplete 5]"
    by (simp add: butlast_append)
  show ?thesis
    using main_crawler_down main_null_url by (simp add: a b c d e e2)
qed

text \<open>
  Claim C6 as stated fails at a payload that is malformed without making \<open>search\<close>
  raise: an item whose \<open>url\<close> is \<open>null\<close>. \<open>search\<close> returns it as a result, not the
  empty list, and the loop over the results then raises outside every handler: the
  run ends without a \<open>complete\<close> event, although the four other queries brought
  results.
\<close>

theorem null_url_payload_is_returned:
  "search null_url_client ''robotics internship for high school students'' None None None 10
     = Inr [\<lparr>sr_url = JNull, sr_title = JStr ''No link'', sr_snippet = JStr '''',
             sr_engine = JStr ''unknown'', sr_score = JNum 0\<rparr>]
   \<and> snd (do_search null_url_env ''robotics internship for high school students'') \<noteq> Inr []
   \<and> fst (snd (main null_url_env empty_world ''robotics'')) = Some (OtherException ''AttributeError'')
   \<and> \<not> list_ex is_complete (fst (main null_url_env empty_world ''robotics''))"
proof -
  have "snd (do_search null_url_env ''robotics internship for high school students'') \<noteq> Inr []"
    by (simp add: do_search_def null_url_env_def search_null_url_client)
  then show ?thesis using search_null_url_client main_null_url by simp
qed

text \<open>The theorem at a run without \<open>DATABASE_URL\<close>, at a configured run that finds five
  URLs and accepts the five records, and at a run in which \<open>sync.close()\<close> raises.\<close>

theorem complete_event_last_witness:
  "\<not> list_ex is_complete (fst (run_script unconfigured_env empty_world example_argv))
   \<and> (\<exists>evs. fst (run_script example_env empty_world example_argv) = evs @ [EvComplete 5]
           \<and> \<not> list_ex is_complete evs
           \<and> length (filter is_extracted evs) = 5)
   \<and> last (fst (run_script closing_env empty_world example_argv)) = EvError ''connection already closed''"
proof -
  note q = example_argv_query
  have un: "2 \<le> length example_argv
      \<and> (db_url_of (getenv_DATABASE_URL unconfigured_env) = None
          \<or> db_url_of (getenv_DATABASE_URL unconfigured_env) = Some [])"
    using q by (simp add: unconfigured_env_def db_url_of_def)
  have a: "\<not> list_ex is_complete (fst (run_script unconfigured_env empty_world example_argv))"
    using un complete_event_last [of example_argv unconfigured_env empty_world "[]" "OtherException []"]
    by blast
  let ?crs = "map crawl_ok (urls_to_process example_env
           (fst (collect_urls (merged_results example_env ''robotics'') [])))"
  have hyp: "2 \<le> length example_argv
        \<and> db_url_of (getenv_DATABASE_URL example_env) \<noteq> None
        \<and> db_url_of (getenv_DATABASE_URL example_env) \<noteq> Some []
        \<and> startup example_env = None
        \<and> list_all (\<lambda>r. is_str (sr_url r)) (merged_results example_env (join '' '' (tl example_argv)))
        \<and> crawler_crawl_batch example_env
             (urls_to_process example_env
                (fst (collect_urls (merged_results example_env (join '' '' (tl example_argv))) [])))
            = Inr ?crs
        \<and> sync_close example_env = None"
    using q db_url_example_env merged_results_example_typed by (simp add: example_env_def)
  from hyp complete_event_last [of example_argv example_env empty_world ?crs "OtherException []"]
  obtain evs n where "fst (run_script example_env empty_world example_argv) = evs @ [EvComplete n]"
    "\<not> list_ex is_complete evs" "n = length (filter is_extracted evs)"
    "n = length (filter (\<lambda>r. \<not> is_failed r) (fst (extract_all (collab example_env) empty_world ?crs)))"
    by blast
  then have b: "fst (run_script example_env empty_world example_argv) = evs @ [EvComplete 5]
           \<and> \<not> list_ex is_complete evs \<and> length (filter is_extracted evs) = 5"
    using example_accepts_five by simp
  have cl: "2 \<le> length example_argv
      \<and> fst (snd (main closing_env empty_world (join '' '' (tl example_argv))))
          = Some (OtherException ''connection already closed'')"
    using q main_closing by auto
  have c: "last (fst (run_script closing_env empty_world example_argv)) = EvError ''connection already closed''"
    using cl complete_event_last [of example_argv closing_env empty_world "[]"
        "OtherException ''connection already closed''"]
    by simp
  from a b c show ?thesis by blast
qed

section \<open>The extraction gate\<close>

lemma filter_length_update:
  "i < length xs \<Longrightarrow>
   length (filter P (xs[i := y])) + (if P (xs ! i) then 1 else 0)
     = length (filter P xs) + (if P y then 1 else 0)"
proof (induction xs arbitrary: i)
  case Nil
  then show ?case by simp
next
  case (Cons x xs)
  show ?case
  proof (cases i)
    case 0
    then show ?thesis by simp
  next
    case (Suc j)
    then have "j < length xs" using Cons.prems by simp
    from Cons.IH [OF this] Suc show ?thesis by simp
  qed
qed

text \<open>The two pieces of the block, one after the other, are \<open>extract_and_save\<close>.\<close>

lemma extract_and_save_in_pieces:
  "reaches_gate cr \<Longrightarrow> extract_and_save c w cr = finish_extract c (begin_extract w cr) cr"
  by (simp add: reaches_gate_def extract_and_save_def extract_and_save_try_def finish_extract_def
      begin_extract_def Let_def)

lemma extract_and_save_decide_calls:
  "extract_calls (snd (extract_and_save_decide c w u e)) = extract_calls w"
  by (simp add: extract_and_save_decide_def Let_def split: option.splits)

lemma finish_extract_calls:
  "extract_calls (snd (finish_extract c w cr)) = extract_calls w"
proof (cases "extractor_extract c (markdown_or_empty cr) (cr_url cr)")
  case (Inl e)
  then show ?thesis by (simp add: finish_extract_def)
next
  case (Inr extraction)
  obtain r w' where d: "extract_and_save_decide c w (cr_url cr) extraction = (r, w')"
    by (cases "extract_and_save_decide c w (cr_url cr) extraction") auto
  have "extract_calls w' = extract_calls w"
    using extract_and_save_decide_calls [of c w "cr_url cr" extraction] d by simp
  then show ?thesis using Inr d by (cases r) (simp_all add: finish_extract_def)
qed

lemma step_effect:
  assumes "step c s s'"
  shows "length (tasks s') = length (tasks s)
   \<and> (in_flight s + permits s = 5 \<longrightarrow> in_flight s' + permits s' = 5)
   \<and> length (extract_calls (sched_world s')) + in_flight s + length (filter left_gate (tasks s))
        = length (extract_calls (sched_world s)) + in_flight s' + length (filter left_gate (tasks s'))
   \<and> (extract_calls (sched_world s') \<noteq> extract_calls (sched_world s)
        \<longrightarrow> 0 < permits s \<and> permits s' = permits s - 1 \<and> in_flight s' = in_flight s + 1
          \<and> (\<exists>i cr. i < length (tasks s) \<and> tasks s ! i = Ready cr \<and> reaches_gate cr
                \<and> tasks s' ! i = InGate cr
                \<and> extract_calls (sched_world s')
                     = extract_calls (sched_world s) @ [(markdown_or_empty cr, cr_url cr)]))"
  using assms
proof (induction rule: step.induct)
  case (early_return i s cr)
  from filter_length_update [OF early_return(1), of in_gate
      "ReturnedEarly (fst (extract_and_save c (sched_world s) cr))"]
    filter_length_update [OF early_return(1), of left_gate
      "ReturnedEarly (fst (extract_and_save c (sched_world s) cr))"] early_return
  show ?case by (simp add: in_flight_def)
next
  case (acquire i s cr)
  from filter_length_update [OF acquire(1), of in_gate "InGate cr"]
    filter_length_update [OF acquire(1), of left_gate "InGate cr"] acquire
  have a: "length (filter in_gate ((tasks s)[i := InGate cr])) = length (filter in_gate (tasks s)) + 1"
    and b: "length (filter left_gate ((tasks s)[i := InGate cr])) = length (filter left_gate (tasks s))"
    by simp_all
  have ex: "\<exists>j cr'. j < length (tasks s) \<and> tasks s ! j = Ready cr' \<and> reaches_gate cr'
                \<and> (tasks s)[i := InGate cr] ! j = InGate cr'
                \<and> extract_calls (begin_extract (sched_world s) cr)
                     = extract_calls (sched_world s) @ [(markdown_or_empty cr', cr_url cr')]"
    using acquire by (intro exI [of _ i] exI [of _ cr]) (simp add: begin_extract_def)
  show ?case using acquire a b ex by (simp add: in_flight_def begin_extract_def)
next
  case (release i s cr)
  from filter_length_update [OF release(1), of in_gate
      "Done (fst (finish_extract c (sched_world s) cr))"]
    filter_length_update [OF release(1), of left_gate
      "Done (fst (finish_extract c (sched_world s) cr))"] release
  show ?case by (simp add: in_flight_def finish_extract_calls)
qed

lemma reachable_invariant:
  assumes "reachable c w crawl_results s"
  shows "in_flight s + permits s = 5 \<and> length (tasks s) = length crawl_results
       \<and> length (extract_calls (sched_world s))
           = length (extract_calls w) + in_flight s + length (filter left_gate (tasks s))"
  using assms
proof (induction rule: reachable.induct)
  case start
  show ?case by (simp add: in_flight_def initial_scheduler_def filter_empty_conv)
next
  case (next_step s s')
  then show ?case using step_effect [of c s s'] by simp
qed

lemma admitted_zero: "admitted 0 w crs = initial_scheduler w crs"
  by (simp add: admitted_def initial_scheduler_def)

lemma admitted_tasks:
  assumes "k < length crs"
  shows "tasks (admitted k w crs)
           = map InGate (take k crs) @ Ready (crs ! k) # map Ready (drop (Suc k) crs)"
proof -
  have "drop k crs = crs ! k # drop (Suc k) crs"
    using assms by (rule Cons_nth_drop_Suc [symmetric])
  then show ?thesis by (simp add: admitted_def)
qed

lemma admitted_tasks_Suc:
  assumes "k < length crs"
  shows "tasks (admitted (Suc k) w crs)
           = map InGate (take k crs) @ InGate (crs ! k) # map Ready (drop (Suc k) crs)"
proof -
  have "take (Suc k) crs = take k crs @ [crs ! k]"
    using assms by (rule take_Suc_conv_app_nth)
  then show ?thesis by (simp add: admitted_def)
qed

lemma admitted_world_Suc:
  assumes "k < length crs"
  shows "sched_world (admitted (Suc k) w crs) = begin_extract (sched_world (admitted k w crs)) (crs ! k)"
proof -
  have "take (Suc k) crs = take k crs @ [crs ! k]"
    using assms by (rule take_Suc_conv_app_nth)
  then show ?thesis by (simp add: admitted_def)
qed

lemma admitted_nth:
  assumes "k < length crs"
  shows "tasks (admitted k w crs) ! k = Ready (crs ! k)"
proof -
  have "length (map InGate (take k crs)) = k" using assms by simp
  then show ?thesis
    using nth_append_length [of "map InGate (take k crs)" "Ready (crs ! k)" "map Ready (drop (Suc k) crs)"]
    by (simp only: admitted_tasks [OF assms])
qed

lemma admitted_step:
  assumes k: "k < 5" "k < length crs" and ok: "reaches_gate (crs ! k)"
  shows "step c (admitted k w crs) (admitted (Suc k) w crs)"
proof -
  let ?s = "admitted k w crs"
  have len: "k < length (tasks ?s)" using k by (simp add: admitted_def)
  have at: "tasks ?s ! k = Ready (crs ! k)" using k by (simp only: admitted_nth)
  have perm: "0 < permits ?s" using k by (simp add: admitted_def)
  have lk: "length (map InGate (take k crs)) = k" using k by simp
  have upd: "(tasks ?s)[k := InGate (crs ! k)] = tasks (admitted (Suc k) w crs)"
    using list_update_length [of "map InGate (take k crs)" "Ready (crs ! k)"
        "map Ready (drop (Suc k) crs)" "InGate (crs ! k)"]
    by (simp only: admitted_tasks [OF k(2)] admitted_tasks_Suc [OF k(2)] lk)
  have p: "permits (admitted (Suc k) w crs) = permits ?s - 1" by (simp add: admitted_def)
  have "admitted (Suc k) w crs
      = ?s\<lparr>permits := permits ?s - 1, tasks := (tasks ?s)[k := InGate (crs ! k)],
           sched_world := begin_extract (sched_world ?s) (crs ! k)\<rparr>"
    by (simp only: upd admitted_world_Suc [OF k(2), symmetric] p [symmetric]) simp
  then show ?thesis
    using step.acquire [OF len at ok perm, of c] by simp
qed

lemma reachable_admitted:
  assumes "k \<le> 5" "k \<le> length crs" "list_all reaches_gate crs"
  shows "reachable c w crs (admitted k w crs)"
  using assms
proof (induction k)
  case 0
  show ?case using reachable.start [of c w crs] by (simp add: admitted_zero)
next
  case (Suc k)
  then have r: "reachable c w crs (admitted k w crs)" by simp
  have "reaches_gate (crs ! k)" using Suc.prems by (simp add: list_all_length)
  then have "step c (admitted k w crs) (admitted (Suc k) w crs)"
    using admitted_step [of k crs c w] Suc.prems by simp
  with r show ?case by (rule reachable.next_step)
qed

lemma in_flight_admitted: "k \<le> length crs \<Longrightarrow> in_flight (admitted k w crs) = k"
proof -
  assume k: "k \<le> length crs"
  have a: "filter in_gate (map InGate (take k crs)) = map InGate (take k crs)"
    by (simp add: filter_id_conv)
  have b: "filter in_gate (map Ready (drop k crs)) = []"
    by (simp add: filter_empty_conv)
  show ?thesis using k by (simp add: in_flight_def admitted_def a b)
qed

text \<open>
  Claim C9. A call of the extraction agent is issued only by a task that takes a
  permit of the shared semaphore in the same step, and it has returned when the task
  leaves the block. So, in every state that the tasks of a run can reach and however
  many crawl outcomes there are: the calls issued so far are those of the tasks in
  the block and of the tasks that have left it; the tasks in the block, and with them
  the calls in flight, are at most 5, their number and the value of the semaphore
  adding up to 5; while 5 are in flight no step issues another call. The gate bounds
  admission and does not partition the work: whichever task is ready, it is admitted
  as soon as the value of the semaphore is positive.
\<close>

theorem at_most_five_in_flight:
  "(reachable c w crawl_results s
      \<longrightarrow> in_flight s \<le> 5 \<and> in_flight s + permits s = 5 \<and> length (tasks s) = length crawl_results
        \<and> length (extract_calls (sched_world s))
            = length (extract_calls w) + in_flight s + length (filter left_gate (tasks s)))
   \<and> (step c s s' \<and> extract_calls (sched_world s') \<noteq> extract_calls (sched_world s)
      \<longrightarrow> 0 < permits s \<and> permits s' = permits s - 1 \<and> in_flight s' = in_flight s + 1
        \<and> (\<exists>i cr. i < length (tasks s) \<and> tasks s ! i = Ready cr \<and> reaches_gate cr
              \<and> tasks s' ! i = InGate cr
              \<and> extract_calls (sched_world s')
                   = extract_calls (sched_world s) @ [(markdown_or_empty cr, cr_url cr)]))
   \<and> (reachable c w crawl_results s \<and> in_flight s = 5 \<and> step c s s'
      \<longrightarrow> extract_calls (sched_world s') = extract_calls (sched_world s))
   \<and> (reachable c w crawl_results s \<and> i < length (tasks s) \<and> tasks s ! i = Ready cr
        \<and> reaches_gate cr \<and> 0 < permits s
      \<longrightarrow> (\<exists>s''. step c s s'' \<and> reachable c w crawl_results s'' \<and> tasks s'' ! i = InGate cr
                \<and> in_flight s'' = in_flight s + 1))
   \<and> (reaches_gate cr \<longrightarrow> extract_and_save c w cr = finish_extract c (begin_extract w cr) cr)"
proof (intro conjI impI)
  assume r: "reachable c w crawl_results s"
  from reachable_invariant [OF r]
  show "in_flight s \<le> 5" "in_flight s + permits s = 5" "length (tasks s) = length crawl_results"
    "length (extract_calls (sched_world s))
            = length (extract_calls w) + in_flight s + length (filter left_gate (tasks s))"
    by simp_all
next
  assume a: "step c s s' \<and> extract_calls (sched_world s') \<noteq> extract_calls (sched_world s)"
  then show "0 < permits s" "permits s' = permits s - 1" "in_flight s' = in_flight s + 1"
    "\<exists>i cr. i < length (tasks s) \<and> tasks s ! i = Ready cr \<and> reaches_gate cr
              \<and> tasks s' ! i = InGate cr
              \<and> extract_calls (sched_world s')
                   = extract_calls (sched_world s) @ [(markdown_or_empty cr, cr_url cr)]"
    using step_effect [of c s s'] by blast+
next
  assume a: "reachable c w crawl_results s \<and> in_flight s = 5 \<and> step c s s'"
  then have "permits s = 0" using reachable_invariant [of c w crawl_results s] by simp
  then show "extract_calls (sched_world s') = extract_calls (sched_world s)"
    using a step_effect [of c s s'] by auto
next
  assume a: "reachable c w crawl_results s \<and> i < length (tasks s) \<and> tasks s ! i = Ready cr
        \<and> reaches_gate cr \<and> 0 < permits s"
  let ?t = "s\<lparr>permits := permits s - 1, tasks := (tasks s)[i := InGate cr],
               sched_world := begin_extract (sched_world s) cr\<rparr>"
  have st: "step c s ?t" using a step.acquire [of i s cr c] by simp
  have re: "reachable c w crawl_results ?t" using a st reachable.next_step by blast
  have "in_flight s + permits s = 5" using a reachable_invariant by blast
  moreover have "in_flight ?t + permits ?t = 5" using re reachable_invariant by blast
  ultimately have "in_flight ?t = in_flight s + 1" using a by simp
  then show "\<exists>s''. step c s s'' \<and> reachable c w crawl_results s'' \<and> tasks s'' ! i = InGate cr
                \<and> in_flight s'' = in_flight s + 1"
    using st re a by (intro exI [of _ ?t]) simp
next
  assume "reaches_gate cr"
  then show "extract_and_save c w cr = finish_extract c (begin_extract w cr) cr"
    by (rule extract_and_save_in_pieces)
qed

lemma left_gate_admitted: "filter left_gate (tasks (admitted k w crs)) = []"
  by (simp add: admitted_def filter_empty_conv)

lemma length_six_crawls: "length six_crawls = 6"
  by (simp add: six_crawls_def)

lemma six_crawls_nth: "n < 6 \<Longrightarrow> six_crawls ! n = crawl_ok (site_url n)"
  by (simp add: six_crawls_def)

lemma crawl_ok_reaches_gate: "reaches_gate (crawl_ok u)"
  by (simp add: reaches_gate_def crawl_ok_def markdown_or_empty_def long_markdown_def)

lemma six_crawls_reach_gate: "list_all reaches_gate six_crawls"
  by (simp add: six_crawls_def list_all_iff crawl_ok_reaches_gate)

text \<open>The theorem at six crawl outcomes that all reach the gate: four are admitted and
  the fifth can be; once five are in the block the sixth is still waiting, five calls
  have been issued, and no step issues a sixth.\<close>

theorem at_most_five_in_flight_witness:
  "reachable (collab example_env) empty_world six_crawls (admitted 5 empty_world six_crawls)
   \<and> in_flight (admitted 5 empty_world six_crawls) = 5
   \<and> permits (admitted 5 empty_world six_crawls) = 0
   \<and> tasks (admitted 5 empty_world six_crawls) ! 5 = Ready (crawl_ok (site_url 5))
   \<and> length (extract_calls (sched_world (admitted 5 empty_world six_crawls))) = 5
   \<and> \<not> (\<exists>s'. step (collab example_env) (admitted 5 empty_world six_crawls) s'
          \<and> extract_calls (sched_world s')
                \<noteq> extract_calls (sched_world (admitted 5 empty_world six_crawls)))
   \<and> (\<exists>s'. step (collab example_env) (admitted 4 empty_world six_crawls) s'
          \<and> tasks s' ! 4 = InGate (crawl_ok (site_url 4)) \<and> in_flight s' = 5)"
proof -
  let ?c = "collab example_env"
  let ?s5 = "admitted 5 empty_world six_crawls"
  let ?s4 = "admitted 4 empty_world six_crawls"
  note len = length_six_crawls
  have r5: "reachable ?c empty_world six_crawls ?s5"
    using reachable_admitted [of 5 six_crawls ?c empty_world] six_crawls_reach_gate len by simp
  have r4: "reachable ?c empty_world six_crawls ?s4"
    using reachable_admitted [of 4 six_crawls ?c empty_world] six_crawls_reach_gate len by simp
  have f5: "in_flight ?s5 = 5" using in_flight_admitted [of 5 six_crawls empty_world] len by simp
  have f4: "in_flight ?s4 = 4" using in_flight_admitted [of 4 six_crawls empty_world] len by simp
  have p5: "permits ?s5 = 0" by (simp add: admitted_def)
  have p4: "0 < permits ?s4" by (simp add: admitted_def)
  have t5: "tasks ?s5 ! 5 = Ready (crawl_ok (site_url 5))"
    using admitted_nth [of 5 six_crawls empty_world] len six_crawls_nth [of 5] by simp
  have t4: "tasks ?s4 ! 4 = Ready (crawl_ok (site_url 4))"
    using admitted_nth [of 4 six_crawls empty_world] len six_crawls_nth [of 4] by simp
  have l4: "4 < length (tasks ?s4)"
    using r4 reachable_invariant [of ?c empty_world six_crawls ?s4] len by simp
  note inst5 = at_most_five_in_flight [of ?c empty_world six_crawls ?s5 _ 0 "crawl_ok (site_url 5)"]
  have "length (extract_calls (sched_world ?s5))
          = length (extract_calls empty_world) + in_flight ?s5 + length (filter left_gate (tasks ?s5))"
    using r5 inst5 [of ?s5] by blast
  moreover have "extract_calls empty_world = []" by (simp add: empty_world_def)
  ultimately have calls: "length (extract_calls (sched_world ?s5)) = 5"
    by (simp add: f5 left_gate_admitted)
  have refuse: "\<forall>s'. step ?c ?s5 s' \<longrightarrow> extract_calls (sched_world s') = extract_calls (sched_world ?s5)"
  proof (intro allI impI)
    fix s' assume "step ?c ?s5 s'"
    with r5 f5 show "extract_calls (sched_world s') = extract_calls (sched_world ?s5)"
      using inst5 [of s'] by blast
  qed
  have "\<exists>s''. step ?c ?s4 s'' \<and> reachable ?c empty_world six_crawls s''
          \<and> tasks s'' ! 4 = InGate (crawl_ok (site_url 4)) \<and> in_flight s'' = in_flight ?s4 + 1"
    using r4 l4 t4 p4 crawl_ok_reaches_gate [of "site_url 4"]
      at_most_five_in_flight [of ?c empty_world six_crawls ?s4 ?s4 4 "crawl_ok (site_url 4)"]
    by blast
  then have admit: "\<exists>s'. step ?c ?s4 s' \<and> tasks s' ! 4 = InGate (crawl_ok (site_url 4)) \<and> in_flight s' = 5"
    using f4 by auto
  from r5 f5 p5 t5 calls refuse admit show ?thesis by blast
qed

end
